theory Spec2Isabelle
  imports Main "HOL-Library.Multiset"
begin

section \<open>String helpers of the Go standard library used by the player\<close>

text \<open>
  Go strings are byte sequences; \<open>string\<close> (a list of 8-bit characters) is the same
  data. \<open>strings.HasPrefix\<close>, \<open>strings.TrimPrefix\<close> and \<open>strings.Index\<close> are
  written out as the standard library documents them.
\<close>

definition strings_HasPrefix :: "string \<Rightarrow> string \<Rightarrow> bool" where
  "strings_HasPrefix s p = (length p \<le> length s \<and> take (length p) s = p)"

definition strings_TrimPrefix :: "string \<Rightarrow> string \<Rightarrow> string" where
  "strings_TrimPrefix s p = (if strings_HasPrefix s p then drop (length p) s else s)"

fun strings_Index :: "string \<Rightarrow> string \<Rightarrow> int" where
  "strings_Index [] sep = (if sep = [] then 0 else - 1)"
| "strings_Index (c # cs) sep =
     (if strings_HasPrefix (c # cs) sep then 0
      else (let r = strings_Index cs sep in if r = - 1 then - 1 else r + 1))"

section \<open>URI schema translation (mpd.go)\<close>

definition URI_SCHEMA :: string where
  "URI_SCHEMA = ''mpd://''"

definition uriToMpd :: "string \<Rightarrow> string" where
  "uriToMpd uri = strings_TrimPrefix uri URI_SCHEMA"

definition mpdToUri :: "string \<Rightarrow> string" where
  "mpdToUri song = (if strings_Index song ''://'' = - 1 then URI_SCHEMA @ song else song)"

section \<open>Tracks and search results (filter.go)\<close>

text \<open>
  A track as the player fills it in \<open>trackFromMpdSong\<close>. \<open>Duration\<close> is a
  \<open>time.Duration\<close>, a count of nanoseconds.
\<close>

record Track =
  Uri :: string
  Artist :: string
  Title :: string
  Genre :: string
  Album :: string
  AlbumArtist :: string
  AlbumDisc :: string
  AlbumTrack :: string
  HasArt :: bool
  Duration :: int

record SearchMatch =
  Start :: int
  End :: int

text \<open>
  \<open>Matches\<close> is a Go map from property name to its list of matches, kept here as
  an association list (one entry per property; the nil map is the empty list). Go
  iterates a map in no fixed order, and \<open>NumMatches\<close> only adds up lengths, so
  the order of the entries does not matter to it.
\<close>

record SearchResult =
  sr_Track :: Track
  Matches :: "(string \<times> SearchMatch list) list"

definition NumMatches :: "SearchResult \<Rightarrow> nat" where
  "NumMatches sr = fold (\<lambda>(name, prop) n. n + length prop) (Matches sr) 0"

text \<open>\<open>ByNumMatches\<close> is the slice itself; \<open>Less\<close> compares two of its positions.\<close>

definition ByNumMatches_Less :: "SearchResult list \<Rightarrow> nat \<Rightarrow> nat \<Rightarrow> bool" where
  "ByNumMatches_Less l a b = (NumMatches (l ! a) > NumMatches (l ! b))"

text \<open>
  Modelled from the spec: the call that sorts a result list with \<open>ByNumMatches\<close>
  (in the HTTP layer of the repository) is not among the sources. The spec describes it
  as a stable sort by descending total match count. \<open>rank_insert\<close> and
  \<open>rank_results\<close> are that stable sort, written as an insertion sort driven by
  \<open>ByNumMatches_Less\<close>: an element moves behind \<open>y\<close> only when \<open>Less\<close> puts
  \<open>y\<close> strictly before it.
\<close>

fun rank_insert :: "SearchResult \<Rightarrow> SearchResult list \<Rightarrow> SearchResult list" where
  "rank_insert x [] = [x]"
| "rank_insert x (y # ys) =
     (if ByNumMatches_Less [y, x] 0 1 then y # rank_insert x ys else x # y # ys)"

text \<open>
  Modelled from the spec: the stable sort of a whole result list, by inserting its
  elements from the last to the first.
\<close>

definition rank_results :: "SearchResult list \<Rightarrow> SearchResult list" where
  "rank_results l = foldr rank_insert l []"

section \<open>The filter pipeline (filter.go, \<open>Tracks\<close>)\<close>

text \<open>
  \<open>Filter\<close> is the interface with the single method \<open>Filter(track)\<close>, which
  returns the search result and the flag that says whether the track is kept.
\<close>

type_synonym Filter = "Track \<Rightarrow> SearchResult \<times> bool"

text \<open>
  \<open>Tracks\<close> starts one producer goroutine, \<open>runtime.NumCPU()\<close> workers and one
  goroutine that closes the result channel; the caller drains that channel. Both
  channels are unbuffered, so every send is a rendezvous with one receive. The
  goroutines are modelled by the places where they can wait:
  \<^item> the producer has the tracks it has not sent yet (\<open>feed\<close>) and closes
    \<open>trackStream\<close> after the last one;
  \<^item> a worker waits to receive a track (\<open>Receiving\<close>), waits to hand a kept result
    to the caller (\<open>Sending\<close>), or has left its loop and called \<open>wg.Done\<close>
    (\<open>Exited\<close>);
  \<^item> the caller appends every result it receives to \<open>results\<close> until
    \<open>matchStream\<close> is closed, which happens once every worker is done.
  An \<open>action\<close> is one communication; the scheduler is free to pick any enabled one.
  \<open>Tracks_step\<close> is \<open>None\<close> for an action that is not enabled.
\<close>

datatype worker = Receiving | Sending SearchResult | Exited

record pipeline =
  feed :: "Track list"
  trackStream_closed :: bool
  workers :: "worker list"
  results :: "SearchResult list"
  matchStream_closed :: bool

datatype action = Deliver nat | CloseTracks | Collect nat | Exit nat | CloseMatches

definition Tracks_init :: "nat \<Rightarrow> Track list \<Rightarrow> pipeline" where
  "Tracks_init numCPU tracks =
     \<lparr>feed = tracks, trackStream_closed = False, workers = replicate numCPU Receiving,
      results = [], matchStream_closed = False\<rparr>"

fun Tracks_step :: "Filter \<Rightarrow> action \<Rightarrow> pipeline \<Rightarrow> pipeline option" where
  "Tracks_step flt (Deliver i) p =
     (case feed p of
        [] \<Rightarrow> None
      | track # rest \<Rightarrow>
          if i < length (workers p) \<and> workers p ! i = Receiving
          then (case flt track of
                  (res, ok) \<Rightarrow>
                    Some (p\<lparr>feed := rest,
                            workers := (workers p)[i := (if ok then Sending res else Receiving)]\<rparr>))
          else None)"
| "Tracks_step flt CloseTracks p =
     (if feed p = [] \<and> \<not> trackStream_closed p then Some (p\<lparr>trackStream_closed := True\<rparr>)
      else None)"
| "Tracks_step flt (Collect i) p =
     (if i < length (workers p) \<and> \<not> matchStream_closed p
      then (case workers p ! i of
              Sending res \<Rightarrow>
                Some (p\<lparr>workers := (workers p)[i := Receiving], results := results p @ [res]\<rparr>)
            | _ \<Rightarrow> None)
      else None)"
| "Tracks_step flt (Exit i) p =
     (if i < length (workers p) \<and> workers p ! i = Receiving \<and> trackStream_closed p
      then Some (p\<lparr>workers := (workers p)[i := Exited]\<rparr>)
      else None)"
| "Tracks_step flt CloseMatches p =
     (if list_all (\<lambda>w. w = Exited) (workers p) \<and> \<not> matchStream_closed p
      then Some (p\<lparr>matchStream_closed := True\<rparr>)
      else None)"

fun Tracks_run :: "Filter \<Rightarrow> action list \<Rightarrow> pipeline \<Rightarrow> pipeline option" where
  "Tracks_run flt [] p = Some p"
| "Tracks_run flt (a # as) p =
     (case Tracks_step flt a p of None \<Rightarrow> None | Some p' \<Rightarrow> Tracks_run flt as p')"

text \<open>
  What the outcome is compared with: the results of the tracks for which the
  filter says "kept", one per such track.
\<close>

definition kept_results :: "Filter \<Rightarrow> Track list \<Rightarrow> SearchResult list" where
  "kept_results flt tracks = map (\<lambda>t. fst (flt t)) (filter (\<lambda>t. snd (flt t)) tracks)"

text \<open>
  The invariant of the pipeline: every kept result is in exactly one place (already
  collected, held by a worker that is sending it, or still to be produced from the
  feed), no worker leaves before \<open>trackStream\<close> is closed, the producer closes it
  only with an empty feed, and \<open>matchStream\<close> is closed only after all workers left.
\<close>

fun held :: "worker \<Rightarrow> SearchResult multiset" where
  "held (Sending res) = {#res#}"
| "held w = {#}"

definition in_flight :: "worker list \<Rightarrow> SearchResult multiset" where
  "in_flight ws = sum_list (map held ws)"

definition pipeline_inv :: "Filter \<Rightarrow> Track list \<Rightarrow> pipeline \<Rightarrow> bool" where
  "pipeline_inv flt tracks p =
     (mset (results p) + in_flight (workers p) + mset (kept_results flt (feed p)) = mset (kept_results flt tracks)
      \<and> (trackStream_closed p \<or> list_all (\<lambda>w. w \<noteq> Exited) (workers p))
      \<and> (feed p = [] \<or> \<not> trackStream_closed p)
      \<and> (list_all (\<lambda>w. w = Exited) (workers p) \<or> \<not> matchStream_closed p))"

text \<open>The number of communications that can still happen, an upper bound.\<close>

fun weight :: "worker \<Rightarrow> nat" where
  "weight Receiving = 1"
| "weight (Sending res) = 2"
| "weight Exited = 0"

definition remaining :: "pipeline \<Rightarrow> nat" where
  "remaining p =
     2 * length (feed p) + sum_list (map weight (workers p))
     + (if trackStream_closed p then 0 else 1) + (if matchStream_closed p then 0 else 1)"

text \<open>A filter and a catalogue to run the pipeline on.\<close>

definition title_is_blue :: Filter where
  "title_is_blue t = (\<lparr>sr_Track = t, Matches = [(''title'', [\<lparr>Start = 0, End = 4\<rparr>])]\<rparr>,
             take 4 (Title t) = ''Blue'')"

definition track_titled :: "string \<Rightarrow> string \<Rightarrow> Track" where
  "track_titled u t = \<lparr>Uri = u, Artist = [], Title = t, Genre = [], Album = [], AlbumArtist = [],
     AlbumDisc = [], AlbumTrack = [], HasArt = False, Duration = 0\<rparr>"

section \<open>Errors, panics and goroutines that never return\<close>

text \<open>
  A Go \<open>error\<close> value is its message. A function that returns \<open>(x, err)\<close> becomes
  a sum (\<open>Inl\<close> the error) and one that returns only \<open>err\<close> an option. A panic and
  a goroutine that blocks for ever are no Go values; they are the two \<open>abnormal\<close>
  ways in which a call does not return.
\<close>

datatype go_error = GoError string

fun error_text :: "go_error \<Rightarrow> string" where
  "error_text (GoError s) = s"

definition fmt_Errorf :: "string \<Rightarrow> go_error \<Rightarrow> go_error" where
  "fmt_Errorf prefix err = GoError (prefix @ error_text err)"

datatype abnormal = Blocks | Panics string

section \<open>Decimal numbers of \<open>strconv\<close>\<close>

text \<open>
  \<open>strconv.ParseInt(s, 10, 32)\<close> and \<open>strconv.FormatInt(i, 10)\<close>, as the standard
  library computes them. \<open>ParseUint\<close> reads digit by digit and stops with a range
  error as soon as the value exceeds \<open>2^32 - 1\<close>; \<open>ParseInt\<close> then clamps to the
  32-bit range and returns the clamped value together with the error.
\<close>

datatype NumError = ErrSyntax | ErrRange

definition is_digit :: "char \<Rightarrow> bool" where
  "is_digit c = (48 \<le> (of_char c :: nat) \<and> (of_char c :: nat) \<le> 57)"

definition digit_val :: "char \<Rightarrow> nat" where
  "digit_val c = of_char c - 48"

definition digit_char :: "nat \<Rightarrow> char" where
  "digit_char d = ''0123456789'' ! d"

definition maxUint32 :: nat where
  "maxUint32 = 4294967295"

definition uint64_cutoff :: nat where
  "uint64_cutoff = 18446744073709551615 div 10 + 1"

fun ParseUint_digits :: "nat \<Rightarrow> string \<Rightarrow> nat \<times> NumError option" where
  "ParseUint_digits n [] = (n, None)"
| "ParseUint_digits n (c # cs) =
     (if \<not> is_digit c then (0, Some ErrSyntax)
      else if n \<ge> uint64_cutoff then (maxUint32, Some ErrRange)
      else (let n1 = n * 10 + digit_val c
            in if n1 > maxUint32 then (maxUint32, Some ErrRange) else ParseUint_digits n1 cs))"

definition strconv_ParseUint :: "string \<Rightarrow> nat \<times> NumError option" where
  "strconv_ParseUint s = (if s = [] then (0, Some ErrSyntax) else ParseUint_digits 0 s)"

definition strconv_ParseInt :: "string \<Rightarrow> int \<times> NumError option" where
  "strconv_ParseInt s =
     (if s = [] then (0, Some ErrSyntax)
      else (let neg = (hd s = CHR ''-'');
                s' = (if hd s = CHR ''+'' \<or> hd s = CHR ''-'' then tl s else s)
            in case strconv_ParseUint s' of
                 (un, Some ErrSyntax) \<Rightarrow> (0, Some ErrSyntax)
               | (un, r) \<Rightarrow>
                   if \<not> neg \<and> un \<ge> 2147483648 then (2147483647, Some ErrRange)
                   else if neg \<and> un > 2147483648 then (- 2147483648, Some ErrRange)
                   else (if neg then - int un else int un, None)))"

fun format_nat :: "nat \<Rightarrow> string" where
  "format_nat n =
     (if n < 10 then [digit_char n] else format_nat (n div 10) @ [digit_char (n mod 10)])"

declare format_nat.simps [simp del]

definition strconv_FormatInt :: "int \<Rightarrow> string" where
  "strconv_FormatInt i = (if i < 0 then CHR ''-'' # format_nat (nat (- i)) else format_nat (nat i))"

section \<open>The daemon as the client library shows it\<close>

text \<open>
  \<open>mpd.Attrs\<close> is \<open>map[string]string\<close>; reading a key that is not there gives the
  empty string.
\<close>

type_synonym Attrs = "string \<rightharpoonup> string"

definition attr :: "Attrs \<Rightarrow> string \<Rightarrow> string" where
  "attr a k = (case a k of None \<Rightarrow> [] | Some v \<Rightarrow> v)"

text \<open>
  Everything outside the process: the daemon's queue, status, current song, catalogue
  listing and sticker table, the seeks it was sent, the connections it handed out and
  saw closed, the clock (in nanoseconds, the unit of \<open>time.Duration\<close>), and the
  network. The network is a list of outcomes for the requests to come: each dial, ping
  or command takes the head, \<open>Some err\<close> makes it fail with \<open>err\<close>, and an empty list
  means that nothing fails any more. The daemon is not part of the repository; its
  answers are kept as plain as the client library's documentation of each command.
\<close>

type_synonym mpd_Client = nat

record environment =
  mpd_queue :: "Attrs list"
  mpd_status :: Attrs
  mpd_current :: Attrs
  mpd_listing :: "string \<Rightarrow> Attrs list"
  mpd_stickers :: "string \<times> string \<rightharpoonup> string"
  mpd_seeks :: "(int \<times> int) list"
  mpd_dialled :: nat
  mpd_closed :: "mpd_Client list"
  faults :: "go_error option list"
  clock :: nat

definition request :: "environment \<Rightarrow> go_error option \<times> environment" where
  "request e = (case faults e of [] \<Rightarrow> (None, e) | f # fs \<Rightarrow> (f, e\<lparr>faults := fs\<rparr>))"

definition mpd_DialAuthenticated :: "environment \<Rightarrow> (go_error + mpd_Client) \<times> environment" where
  "mpd_DialAuthenticated e =
     (case request e of
        (Some err, e') \<Rightarrow> (Inl err, e')
      | (None, e') \<Rightarrow> (Inr (mpd_dialled e'), e'\<lparr>mpd_dialled := Suc (mpd_dialled e')\<rparr>))"

definition mpd_Ping :: "mpd_Client \<Rightarrow> environment \<Rightarrow> go_error option \<times> environment" where
  "mpd_Ping c e = request e"

definition mpd_Close :: "mpd_Client \<Rightarrow> environment \<Rightarrow> environment" where
  "mpd_Close c e = e\<lparr>mpd_closed := c # mpd_closed e\<rparr>"

definition mpd_Status :: "mpd_Client \<Rightarrow> environment \<Rightarrow> (go_error + Attrs) \<times> environment" where
  "mpd_Status c e =
     (case request e of (Some err, e') \<Rightarrow> (Inl err, e') | (None, e') \<Rightarrow> (Inr (mpd_status e'), e'))"

definition mpd_CurrentSong :: "mpd_Client \<Rightarrow> environment \<Rightarrow> (go_error + Attrs) \<times> environment" where
  "mpd_CurrentSong c e =
     (case request e of (Some err, e') \<Rightarrow> (Inl err, e') | (None, e') \<Rightarrow> (Inr (mpd_current e'), e'))"

definition mpd_PlaylistInfo :: "mpd_Client \<Rightarrow> environment \<Rightarrow> (go_error + Attrs list) \<times> environment" where
  "mpd_PlaylistInfo c e =
     (case request e of (Some err, e') \<Rightarrow> (Inl err, e') | (None, e') \<Rightarrow> (Inr (mpd_queue e'), e'))"

definition mpd_ListAllInfo ::
  "mpd_Client \<Rightarrow> string \<Rightarrow> environment \<Rightarrow> (go_error + Attrs list) \<times> environment" where
  "mpd_ListAllInfo c path e =
     (case request e of
        (Some err, e') \<Rightarrow> (Inl err, e')
      | (None, e') \<Rightarrow> (Inr (mpd_listing e' path), e'))"

definition mpd_Delete :: "mpd_Client \<Rightarrow> int \<Rightarrow> int \<Rightarrow> environment \<Rightarrow> go_error option \<times> environment" where
  "mpd_Delete c i j e =
     (case request e of
        (Some err, e') \<Rightarrow> (Some err, e')
      | (None, e') \<Rightarrow>
          (None, e'\<lparr>mpd_queue := take (nat i) (mpd_queue e') @ drop (nat j) (mpd_queue e')\<rparr>))"

definition mpd_SeekID :: "mpd_Client \<Rightarrow> int \<Rightarrow> int \<Rightarrow> environment \<Rightarrow> go_error option \<times> environment" where
  "mpd_SeekID c songid secs e =
     (case request e of
        (Some err, e') \<Rightarrow> (Some err, e')
      | (None, e') \<Rightarrow> (None, e'\<lparr>mpd_seeks := mpd_seeks e' @ [(songid, secs)]\<rparr>))"

text \<open>Reading a sticker that is not set is an error of the daemon, not of the network.\<close>

definition mpd_StickerGet ::
  "mpd_Client \<Rightarrow> string \<Rightarrow> string \<Rightarrow> environment \<Rightarrow> (go_error + string) \<times> environment" where
  "mpd_StickerGet c uri name e =
     (case request e of
        (Some err, e') \<Rightarrow> (Inl err, e')
      | (None, e') \<Rightarrow>
          (case mpd_stickers e' (uri, name) of
             None \<Rightarrow> (Inl (GoError ''no such sticker''), e')
           | Some v \<Rightarrow> (Inr v, e')))"

definition mpd_StickerSet ::
  "mpd_Client \<Rightarrow> string \<Rightarrow> string \<Rightarrow> string \<Rightarrow> environment \<Rightarrow> go_error option \<times> environment" where
  "mpd_StickerSet c uri name val e =
     (case request e of
        (Some err, e') \<Rightarrow> (Some err, e')
      | (None, e') \<Rightarrow> (None, e'\<lparr>mpd_stickers := (mpd_stickers e')((uri, name) \<mapsto> val)\<rparr>))"

section \<open>Reusable connections and their keepalive (mpd.go, \<open>reusableClient\<close>)\<close>

text \<open>
  A \<open>reusableClient\<close> with the state of the goroutine that runs its \<open>run\<close> method:
  \<open>client\<close> is the pointer (\<open>None\<close> is nil), \<open>reset_closed\<close> says that \<open>run\<close> has
  returned and its deferred \<open>close(rc.reset)\<close> has run, and \<open>expire\<close> is the time at
  which the timer made by the last \<open>time.After(expireAfter)\<close> fires.
\<close>

record reusableClient =
  client :: "mpd_Client option"
  reset_closed :: bool
  expire :: nat

definition Second :: nat where
  "Second = 1000000000"

text \<open>
  The three cases of the \<open>select\<close> in \<open>run\<close>. A step is \<open>None\<close> when the case
  cannot be taken: the goroutine has returned, or the timer has not fired yet.
  \<open>client\<close> is set to nil only where \<open>run\<close> returns, so a running goroutine with
  a nil client does not arise and takes no step either.
\<close>

datatype run_event = PingTick | ExpireFires | ResetReceived

definition run_step ::
  "nat \<Rightarrow> run_event \<Rightarrow> reusableClient \<times> environment \<Rightarrow> (reusableClient \<times> environment) option" where
  "run_step expireAfter ev s =
     (case s of (rc, e) \<Rightarrow>
        if reset_closed rc then None
        else (case client rc of
                None \<Rightarrow> None
              | Some c \<Rightarrow>
                  (case ev of
                     PingTick \<Rightarrow>
                       (case mpd_Ping c e of
                          (Some err, e') \<Rightarrow>
                            Some (rc\<lparr>client := None, reset_closed := True\<rparr>, mpd_Close c e')
                        | (None, e') \<Rightarrow> Some (rc, e'))
                   | ExpireFires \<Rightarrow>
                       if expire rc \<le> clock e
                       then Some (rc\<lparr>client := None, reset_closed := True\<rparr>, mpd_Close c e)
                       else None
                   | ResetReceived \<Rightarrow> Some (rc\<lparr>expire := clock e + expireAfter\<rparr>, e))))"




section \<open>The player and its connection pool (mpd.go)\<close>

text \<open>
  \<open>PlaylistTrack\<close> is declared in the package \<open>player\<close>, outside the sources; the
  player uses its \<open>TrackUri()\<close> and its \<open>Progress\<close>, and the specification names
  who queued the track as the third part.
\<close>

record PlaylistTrack =
  pt_Uri :: string
  QueuedBy :: string
  Progress :: int

definition TrackUri :: "PlaylistTrack \<Rightarrow> string" where
  "TrackUri t = pt_Uri t"

text \<open>
  The fields of \<open>Player\<close> that the modelled methods read or write. \<open>clientPool\<close> is
  the buffered channel, oldest entry first; \<open>emitted\<close> is every event given to
  \<open>Emit\<close>, \<open>logged\<close> every error given to \<open>log.Println\<close>, both oldest first; \<open>env\<close>
  is what is at the other end of \<open>network\<close> and \<open>address\<close>.
\<close>

record Player =
  clientPool :: "reusableClient list"
  playlist :: "PlaylistTrack list"
  lastTrack :: string
  emitted :: "string list"
  logged :: "go_error list"
  env :: environment

definition Emit :: "string \<Rightarrow> Player \<Rightarrow> Player" where
  "Emit event pl = pl\<lparr>emitted := emitted pl @ [event]\<rparr>"

definition log_Println :: "go_error \<Rightarrow> Player \<Rightarrow> Player" where
  "log_Println err pl = pl\<lparr>logged := logged pl @ [err]\<rparr>"

definition newClient :: "Player \<Rightarrow> (go_error + reusableClient) \<times> Player" where
  "newClient pl =
     (case mpd_DialAuthenticated (env pl) of
        (Inl err, e') \<Rightarrow> (Inl (fmt_Errorf ''Error connecting to MPD: '' err), pl\<lparr>env := e'\<rparr>)
      | (Inr c, e') \<Rightarrow>
          (Inr \<lparr>client = Some c, reset_closed = False, expire = clock e' + 30 * Second\<rparr>,
           pl\<lparr>env := e'\<rparr>))"

text \<open>
  \<open>withMpd\<close> up to the call of \<open>fn\<close>: take the oldest entry of the pool (a receive
  from an empty channel blocks), replace it if its client is nil, and send on its
  reset channel, which the keepalive goroutine receives. When the replacement cannot be
  made the function returns the error; the deferred function that puts an entry back is
  not registered yet at that point.
\<close>

definition acquire ::
  "Player \<Rightarrow> abnormal + ((go_error + reusableClient \<times> mpd_Client) \<times> Player)" where
  "acquire pl =
     (case clientPool pl of
        [] \<Rightarrow> Inl Blocks
      | reClient # rest \<Rightarrow>
          (case (case client reClient of
                   None \<Rightarrow> newClient (pl\<lparr>clientPool := rest\<rparr>)
                 | Some c \<Rightarrow> (Inr reClient, pl\<lparr>clientPool := rest\<rparr>)) of
             (Inl err, pl1) \<Rightarrow> Inr (Inl err, pl1)
           | (Inr rc, pl1) \<Rightarrow>
               (case run_step (30 * Second) ResetReceived (rc, env pl1) of
                  None \<Rightarrow> Inl (Panics ''send on closed channel'')
                | Some (rc', e') \<Rightarrow>
                    (case client rc' of
                       None \<Rightarrow> Inl (Panics ''nil client'')
                     | Some c \<Rightarrow> Inr (Inr (rc', c), pl1\<lparr>env := e'\<rparr>)))))"

text \<open>
  The callback gets the client and works on the player (it is a closure over \<open>pl\<close>).
  After it returns, the deferred function puts the entry back at the end of the pool.
\<close>

type_synonym callback = "mpd_Client \<Rightarrow> Player \<Rightarrow> abnormal + (go_error option \<times> Player)"

definition withMpd :: "callback \<Rightarrow> Player \<Rightarrow> abnormal + (go_error option \<times> Player)" where
  "withMpd fn pl =
     (case acquire pl of
        Inl ab \<Rightarrow> Inl ab
      | Inr (Inl err, pl1) \<Rightarrow> Inr (Some err, pl1)
      | Inr (Inr (rc, c), pl1) \<Rightarrow>
          (case fn c pl1 of
             Inl ab \<Rightarrow> Inl ab
           | Inr (res, pl2) \<Rightarrow> Inr (res, pl2\<lparr>clientPool := clientPool pl2 @ [rc]\<rparr>)))"

text \<open>\<open>Available\<close>: a ping through a pooled connection.\<close>

definition Available :: "Player \<Rightarrow> abnormal + (bool \<times> Player)" where
  "Available pl =
     (case withMpd (\<lambda>c p. case mpd_Ping c (env p) of (r, e') \<Rightarrow> Inr (r, p\<lparr>env := e'\<rparr>)) pl of
        Inl ab \<Rightarrow> Inl ab
      | Inr (res, pl') \<Rightarrow> Inr (res = None, pl'))"

text \<open>
  \<open>Connect\<close> fills the pool, whose capacity is 6, with fresh connections and gives up
  at the first dial that fails. (It then starts \<open>eventLoop\<close> and \<open>mainLoop\<close>.)
\<close>

fun Connect_fill :: "nat \<Rightarrow> Player \<Rightarrow> go_error + Player" where
  "Connect_fill 0 pl = Inr pl"
| "Connect_fill (Suc n) pl =
     (case newClient pl of
        (Inl err, pl') \<Rightarrow> Inl err
      | (Inr reClient, pl') \<Rightarrow> Connect_fill n (pl'\<lparr>clientPool := clientPool pl' @ [reClient]\<rparr>))"

definition Connect :: "environment \<Rightarrow> go_error + Player" where
  "Connect e =
     Connect_fill 6
       \<lparr>clientPool = [], playlist = [], lastTrack = [], emitted = [], logged = [], env = e\<rparr>"

text \<open>The keepalive goroutine of the \<open>i\<close>-th entry waiting in the pool takes a step.\<close>

definition pool_run_step :: "nat \<Rightarrow> run_event \<Rightarrow> Player \<Rightarrow> Player option" where
  "pool_run_step i ev pl =
     (if i < length (clientPool pl)
      then (case run_step (30 * Second) ev (clientPool pl ! i, env pl) of
              None \<Rightarrow> None
            | Some (rc', e') \<Rightarrow> Some (pl\<lparr>clientPool := (clientPool pl)[i := rc'], env := e'\<rparr>))
      else None)"

section \<open>The sync loop (mpd.go, \<open>mainLoop\<close>)\<close>

text \<open>
  \<open>statusAttrInt\<close>: an attribute of the status as an integer, and whether it was
  there and parsed without error.
\<close>

definition statusAttrInt :: "Attrs \<Rightarrow> string \<Rightarrow> int \<times> bool" where
  "statusAttrInt status name =
     (case status name of
        Some str \<Rightarrow> (case strconv_ParseInt str of (a64, None) \<Rightarrow> (a64, True) | (a64, Some err) \<Rightarrow> (0, False))
      | None \<Rightarrow> (0, False))"

definition removePlayedTracks :: "mpd_Client \<Rightarrow> environment \<Rightarrow> go_error option \<times> environment" where
  "removePlayedTracks mpdc e =
     (case mpd_Status mpdc e of
        (Inl err, e1) \<Rightarrow> (Some err, e1)
      | (Inr status, e1) \<Rightarrow>
          (case statusAttrInt status ''song'' of
             (songIndex, ok) \<Rightarrow> if songIndex > 0 then mpd_Delete mpdc 0 songIndex e1 else (None, e1)))"

text \<open>
  The loop of \<open>playlistMatchesServer\<close> over the daemon's songs, from position \<open>i\<close>
  on: it returns false at the first song whose URI differs from \<open>plist[i]\<close>. It runs
  only when both lists have the same length, so \<open>plist ! i\<close> is in range.
\<close>

fun songs_match_from :: "nat \<Rightarrow> Attrs list \<Rightarrow> PlaylistTrack list \<Rightarrow> bool" where
  "songs_match_from i [] plist = True"
| "songs_match_from i (song # songs) plist =
     (if mpdToUri (attr song ''file'') \<noteq> TrackUri (plist ! i) then False
      else songs_match_from (Suc i) songs plist)"

definition playlistMatchesServer ::
  "mpd_Client \<Rightarrow> environment \<Rightarrow> PlaylistTrack list \<Rightarrow> (go_error + bool) \<times> environment" where
  "playlistMatchesServer mpdc e plist =
     (case mpd_PlaylistInfo mpdc e of
        (Inl err, e1) \<Rightarrow> (Inl err, e1)
      | (Inr songs, e1) \<Rightarrow>
          (if length plist = length songs then (Inr (songs_match_from 0 songs plist), e1)
           else (Inr False, e1)))"

text \<open>
  A \<open>TrackIdentity\<close> is an interface with the one method \<open>TrackUri()\<close>; it is kept
  as the URI that method returns.
\<close>

type_synonym TrackIdentity = string

definition loadPlaylist ::
  "mpd_Client \<Rightarrow> environment \<Rightarrow> (go_error + TrackIdentity list) \<times> environment" where
  "loadPlaylist mpdc e =
     (case mpd_PlaylistInfo mpdc e of
        (Inl err, e1) \<Rightarrow> (Inl err, e1)
      | (Inr songs, e1) \<Rightarrow> (Inr (map (\<lambda>song. mpdToUri (attr song ''file'')) songs), e1))"

text \<open>
  \<open>player.InterpolatePlaylistMeta\<close> is declared outside the sources; the functions
  that call it take it as the parameter \<open>interpolate\<close>.
\<close>

type_synonym interpolation = "PlaylistTrack list \<Rightarrow> TrackIdentity list \<Rightarrow> PlaylistTrack list"

text \<open>The callback of the case \<open>"mpd-playlist"\<close>.\<close>

definition syncPlaylist :: "interpolation \<Rightarrow> callback" where
  "syncPlaylist interpolate mpdc pl =
     (case playlistMatchesServer mpdc (env pl) (playlist pl) of
        (Inl err, e1) \<Rightarrow> Inr (Some err, pl\<lparr>env := e1\<rparr>)
      | (Inr inSync, e1) \<Rightarrow>
          if inSync then Inr (None, pl\<lparr>env := e1\<rparr>)
          else (case removePlayedTracks mpdc e1 of
                  (Some err, e2) \<Rightarrow> Inr (Some err, pl\<lparr>env := e2\<rparr>)
                | (None, e2) \<Rightarrow>
                    (case loadPlaylist mpdc e2 of
                       (Inl err, e3) \<Rightarrow> Inr (Some err, pl\<lparr>env := e3\<rparr>)
                     | (Inr newPlistIds, e3) \<Rightarrow>
                         (let newPlist = interpolate (playlist pl) newPlistIds;
                              pl1 = Emit ''playlist'' (pl\<lparr>env := e3, playlist := newPlist\<rparr>)
                          in Inr (None, if newPlist = [] then Emit ''playlist-end'' pl1 else pl1)))))"

text \<open>Go's integer division truncates towards zero.\<close>

definition go_div :: "int \<Rightarrow> int \<Rightarrow> int" where
  "go_div a b = sgn a * sgn b * (\<bar>a\<bar> div \<bar>b\<bar>)"

definition Seek :: "int \<Rightarrow> Player \<Rightarrow> abnormal + (go_error option \<times> Player)" where
  "Seek progress pl =
     withMpd (\<lambda>mpdc p.
       case mpd_Status mpdc (env p) of
         (Inl err, e1) \<Rightarrow> Inr (Some err, p\<lparr>env := e1\<rparr>)
       | (Inr status, e1) \<Rightarrow>
           (case statusAttrInt status ''songid'' of
              (songid, ok) \<Rightarrow>
                if \<not> ok then Inr (None, p\<lparr>env := e1\<rparr>)
                else (case mpd_SeekID mpdc songid (go_div progress (int Second)) e1 of
                        (res, e2) \<Rightarrow> Inr (res, p\<lparr>env := e2\<rparr>)))) pl"

definition incrementPlayCount ::
  "string \<Rightarrow> mpd_Client \<Rightarrow> environment \<Rightarrow> go_error option \<times> environment" where
  "incrementPlayCount uri mpdc e =
     (if \<not> strings_HasPrefix uri URI_SCHEMA then (None, e)
      else (case mpd_StickerGet mpdc (uriToMpd uri) ''play-count'' e of
              (got, e1) \<Rightarrow>
                (let playCount = (case got of Inr str \<Rightarrow> fst (strconv_ParseInt str) | Inl err \<Rightarrow> 0)
                 in case mpd_StickerSet mpdc (uriToMpd uri) ''play-count''
                           (strconv_FormatInt (playCount + 1)) e1 of
                      (Some err, e2) \<Rightarrow> (Some (fmt_Errorf ''Unable to set play-count: '' err), e2)
                    | (None, e2) \<Rightarrow> (None, e2))))"

text \<open>
  The callback of the case \<open>"playlist"\<close>. \<open>pl.Seek\<close> inside it is a second
  \<open>withMpd\<close>, on the pool without the entry this callback holds.
\<close>

definition trackChanged :: callback where
  "trackChanged mpdc pl =
     (case playlist pl of
        [] \<Rightarrow> Inr (None, pl)
      | cur # rest \<Rightarrow>
          if lastTrack pl \<noteq> [] \<and> lastTrack pl \<noteq> TrackUri cur
          then (case (if Progress cur \<noteq> 0 then Seek (Progress cur) pl else Inr (None, pl)) of
                  Inl ab \<Rightarrow> Inl ab
                | Inr (Some err, pl1) \<Rightarrow> Inr (Some err, pl1)
                | Inr (None, pl1) \<Rightarrow>
                    (case incrementPlayCount (TrackUri cur) mpdc (env pl1) of
                       (Some err, e2) \<Rightarrow> Inr (Some err, pl1\<lparr>env := e2\<rparr>)
                     | (None, e2) \<Rightarrow> Inr (None, pl1\<lparr>env := e2, lastTrack := TrackUri cur\<rparr>)))
          else Inr (None, pl\<lparr>lastTrack := TrackUri cur\<rparr>))"

text \<open>The callback of the case \<open>"mpd-update"\<close>.\<close>

definition updateFinished :: callback where
  "updateFinished mpdc pl =
     (case mpd_Status mpdc (env pl) of
        (Inl err, e1) \<Rightarrow> Inr (Some err, pl\<lparr>env := e1\<rparr>)
      | (Inr status, e1) \<Rightarrow>
          Inr (None, if status ''updating_db'' = None then Emit ''tracks'' (pl\<lparr>env := e1\<rparr>)
                     else pl\<lparr>env := e1\<rparr>))"

text \<open>
  What every case does with the result of its \<open>withMpd\<close>: an error is logged and the
  loop goes on.
\<close>

definition logged_withMpd :: "callback \<Rightarrow> Player \<Rightarrow> abnormal + Player" where
  "logged_withMpd fn pl =
     (case withMpd fn pl of
        Inl ab \<Rightarrow> Inl ab
      | Inr (None, pl1) \<Rightarrow> Inr pl1
      | Inr (Some err, pl1) \<Rightarrow> Inr (log_Println err pl1))"

text \<open>
  One iteration of the loop, for the event it received. \<open>"mpd-player"\<close> falls through
  to \<open>"mpd-playlist"\<close>; an event without a case is dropped.
\<close>

definition mainLoop_step :: "interpolation \<Rightarrow> string \<Rightarrow> Player \<Rightarrow> abnormal + Player" where
  "mainLoop_step interpolate event pl =
     (if event = ''mpd-player''
        then logged_withMpd (syncPlaylist interpolate) (Emit ''progress'' (Emit ''playstate'' pl))
      else if event = ''mpd-playlist'' then logged_withMpd (syncPlaylist interpolate) pl
      else if event = ''playlist'' then logged_withMpd trackChanged pl
      else if event = ''mpd-mixer'' then Inr (Emit ''volume'' pl)
      else if event = ''mpd-update'' then logged_withMpd updateFinished pl
      else Inr pl)"







section \<open>Reading tracks from the daemon (mpd.go, \<open>Tracks\<close> and \<open>TrackInfo\<close>)\<close>

text \<open>
  \<open>withMpd\<close> for a callback that assigns to a variable of its caller (\<open>tracks\<close> in
  \<open>Tracks\<close> and \<open>TrackInfo\<close>): the callback returns the value of that variable
  next to its error, and \<open>v0\<close> is the value the variable has when the callback never
  runs.
\<close>

definition withMpd_capture ::
  "(mpd_Client \<Rightarrow> Player \<Rightarrow> abnormal + ((go_error option \<times> 'v) \<times> Player))
     \<Rightarrow> 'v \<Rightarrow> Player \<Rightarrow> abnormal + ((go_error option \<times> 'v) \<times> Player)" where
  "withMpd_capture fn v0 pl =
     (case acquire pl of
        Inl ab \<Rightarrow> Inl ab
      | Inr (Inl err, pl1) \<Rightarrow> Inr ((Some err, v0), pl1)
      | Inr (Inr (rc, c), pl1) \<Rightarrow>
          (case fn c pl1 of
             Inl ab \<Rightarrow> Inl ab
           | Inr (res, pl2) \<Rightarrow> Inr (res, pl2\<lparr>clientPool := clientPool pl2 @ [rc]\<rparr>)))"

definition zero_Track :: Track where
  "zero_Track = \<lparr>Uri = [], Artist = [], Title = [], Genre = [], Album = [], AlbumArtist = [],
     AlbumDisc = [], AlbumTrack = [], HasArt = False, Duration = 0\<rparr>"

text \<open>
  \<open>trackFromMpdSong\<close> fills a track, which its callers take fresh from \<open>make\<close>,
  from the attributes of a song. It panics on a directory entry and on a \<open>Time\<close> that
  is not a 32-bit decimal number. \<open>player.InterpolateMissingFields\<close> is declared
  outside the sources and is the parameter \<open>fill\<close>.
\<close>

definition trackFromMpdSong ::
  "(Track \<Rightarrow> Track) \<Rightarrow> mpd_Client \<Rightarrow> Attrs \<Rightarrow> environment \<Rightarrow> abnormal + (Track \<times> environment)" where
  "trackFromMpdSong fill mpdc song e =
     (if song ''directory'' \<noteq> None then Inl (Panics ''Tried to read a directory as local file'')
      else (case mpd_StickerGet mpdc (attr song ''file'') ''image-nchunks'' e of
              (got, e1) \<Rightarrow>
                (let strNum = (case got of Inr str \<Rightarrow> str | Inl err \<Rightarrow> []);
                     track = \<lparr>Uri = mpdToUri (attr song ''file''), Artist = attr song ''Artist'',
                              Title = attr song ''Title'', Genre = attr song ''Genre'',
                              Album = attr song ''Album'', AlbumArtist = attr song ''AlbumArtist'',
                              AlbumDisc = attr song ''Disc'', AlbumTrack = attr song ''Track'',
                              HasArt = (snd (strconv_ParseInt strNum) = None), Duration = 0\<rparr>
                 in if attr song ''Time'' \<noteq> []
                    then (case strconv_ParseInt (attr song ''Time'') of
                            (duration, Some err) \<Rightarrow> Inl (Panics ''strconv.ParseInt: parsing Time'')
                          | (duration, None) \<Rightarrow>
                              Inr (fill (track\<lparr>Duration := duration * int Second\<rparr>), e1))
                    else Inr (fill track, e1))))"

text \<open>
  The second loop of \<open>Tracks\<close> and \<open>TrackInfo\<close>: song \<open>i\<close> is written to
  \<open>tracks[i - numDirs]\<close>, a directory entry only counts up \<open>numDirs\<close>, and a nil
  song (\<open>None\<close>; only \<open>TrackInfo\<close> has them) leaves its slot as \<open>make\<close> created
  it. The result is \<open>numDirs\<close> and the array.
\<close>

fun fill_tracks ::
  "(Track \<Rightarrow> Track) \<Rightarrow> mpd_Client \<Rightarrow> Attrs option list \<Rightarrow> nat \<Rightarrow> nat \<Rightarrow> Track list \<Rightarrow> environment
     \<Rightarrow> abnormal + (nat \<times> Track list \<times> environment)" where
  "fill_tracks fill mpdc [] i numDirs tracks e = Inr (numDirs, tracks, e)"
| "fill_tracks fill mpdc (None # songs) i numDirs tracks e =
     fill_tracks fill mpdc songs (Suc i) numDirs tracks e"
| "fill_tracks fill mpdc (Some song # songs) i numDirs tracks e =
     (if song ''directory'' \<noteq> None then fill_tracks fill mpdc songs (Suc i) (Suc numDirs) tracks e
      else (case trackFromMpdSong fill mpdc song e of
              Inl ab \<Rightarrow> Inl ab
            | Inr (track, e1) \<Rightarrow>
                fill_tracks fill mpdc songs (Suc i) numDirs (tracks[i - numDirs := track]) e1))"

definition tracks_of_songs ::
  "(Track \<Rightarrow> Track) \<Rightarrow> mpd_Client \<Rightarrow> Attrs option list \<Rightarrow> environment
     \<Rightarrow> abnormal + (Track list \<times> environment)" where
  "tracks_of_songs fill mpdc songs e =
     (case fill_tracks fill mpdc songs 0 0 (replicate (length songs) zero_Track) e of
        Inl ab \<Rightarrow> Inl ab
      | Inr (numDirs, tracks, e1) \<Rightarrow> Inr (take (length tracks - numDirs) tracks, e1))"

text \<open>
  What a method returns as \<open>(tracks, err)\<close>: \<open>tracks\<close> is assigned only after the
  last place that can return an error, so the pair is either an error (with a nil slice)
  or a slice.
\<close>

definition tracks_result :: "go_error option \<times> Track list option \<Rightarrow> go_error + Track list" where
  "tracks_result r =
     (case r of
        (Some err, tracks) \<Rightarrow> Inl err
      | (None, None) \<Rightarrow> Inr []
      | (None, Some tracks) \<Rightarrow> Inr tracks)"

definition Player_Tracks ::
  "(Track \<Rightarrow> Track) \<Rightarrow> Player \<Rightarrow> abnormal + ((go_error + Track list) \<times> Player)" where
  "Player_Tracks fill pl =
     (case withMpd_capture
             (\<lambda>mpdc p.
                case mpd_ListAllInfo mpdc ''/'' (env p) of
                  (Inl err, e1) \<Rightarrow> Inr ((Some err, None), p\<lparr>env := e1\<rparr>)
                | (Inr songs, e1) \<Rightarrow>
                    (case tracks_of_songs fill mpdc (map Some songs) e1 of
                       Inl ab \<Rightarrow> Inl ab
                     | Inr (tracks, e2) \<Rightarrow> Inr ((None, Some tracks), p\<lparr>env := e2\<rparr>)))
             None pl of
        Inl ab \<Rightarrow> Inl ab
      | Inr (r, pl') \<Rightarrow> Inr (tracks_result r, pl'))"

text \<open>
  The regular expression \<open>https?:\/\/\<close> is not anchored: it matches a string that
  contains \<open>http://\<close> or \<open>https://\<close>.
\<close>

definition matches_http :: "string \<Rightarrow> bool" where
  "matches_http uri = (strings_Index uri ''http://'' \<noteq> - 1 \<or> strings_Index uri ''https://'' \<noteq> - 1)"

text \<open>
  The first loop of \<open>TrackInfo\<close>: the song of identity \<open>i\<close> goes to \<open>songs[i]\<close>,
  which stays nil when the daemon lists nothing for the URI and when the URI is neither
  of the daemon's schema nor the stream that is playing.
\<close>

fun collect_songs ::
  "mpd_Client \<Rightarrow> string \<Rightarrow> TrackIdentity list \<Rightarrow> nat \<Rightarrow> Attrs option list \<Rightarrow> environment
     \<Rightarrow> (go_error + Attrs option list) \<times> environment" where
  "collect_songs mpdc currentTrackUri [] i songs e = (Inr songs, e)"
| "collect_songs mpdc currentTrackUri (uri # ids) i songs e =
     (if strings_HasPrefix uri URI_SCHEMA
      then (case mpd_ListAllInfo mpdc (uriToMpd uri) e of
              (Inl err, e1) \<Rightarrow>
                (Inl (GoError (''Unable to get info about '' @ uri @ '': '' @ error_text err)), e1)
            | (Inr s, e1) \<Rightarrow>
                collect_songs mpdc currentTrackUri ids (Suc i)
                  (case s of [] \<Rightarrow> songs | first # others \<Rightarrow> songs[i := Some first]) e1)
      else if matches_http uri \<and> currentTrackUri = uri
      then (case mpd_CurrentSong mpdc e of
              (Inl err, e1) \<Rightarrow>
                (Inl (GoError (''Unable to get info about '' @ uri @ '': '' @ error_text err)), e1)
            | (Inr song, e1) \<Rightarrow>
                collect_songs mpdc currentTrackUri ids (Suc i)
                  (songs[i := Some (song(''Album'' \<mapsto> attr song ''Name''))]) e1)
      else collect_songs mpdc currentTrackUri ids (Suc i) songs e)"

definition Player_TrackInfo ::
  "(Track \<Rightarrow> Track) \<Rightarrow> TrackIdentity list \<Rightarrow> Player
     \<Rightarrow> abnormal + ((go_error + Track list) \<times> Player)" where
  "Player_TrackInfo fill identities pl =
     (let currentTrackUri = (case playlist pl of [] \<Rightarrow> [] | cur # rest \<Rightarrow> TrackUri cur)
      in case withMpd_capture
                (\<lambda>mpdc p.
                   case collect_songs mpdc currentTrackUri identities 0
                          (replicate (length identities) None) (env p) of
                     (Inl err, e1) \<Rightarrow> Inr ((Some err, None), p\<lparr>env := e1\<rparr>)
                   | (Inr songs, e1) \<Rightarrow>
                       (case tracks_of_songs fill mpdc songs e1 of
                          Inl ab \<Rightarrow> Inl ab
                        | Inr (tracks, e2) \<Rightarrow> Inr ((None, Some tracks), p\<lparr>env := e2\<rparr>)))
                None pl of
           Inl ab \<Rightarrow> Inl ab
         | Inr (r, pl') \<Rightarrow> Inr (tracks_result r, pl'))"

section \<open>The track cache (\<open>TrackCache\<close>)\<close>

text \<open>
  The cache embeds a \<open>Player\<close>, an interface. Of its methods the cache calls
  \<open>Tracks()\<close> and \<open>TrackInfo(uri)\<close>; an implementation is a pair of functions on
  its own state \<open>'p\<close>. A call that succeeds returns a slice, as the
  implementation for the daemon does.
\<close>

record 'p Player_methods =
  method_Tracks :: "'p \<Rightarrow> abnormal + ((go_error + Track list) \<times> 'p)"
  method_TrackInfo :: "string list \<Rightarrow> 'p \<Rightarrow> abnormal + ((go_error + Track list) \<times> 'p)"

definition mpd_methods :: "(Track \<Rightarrow> Track) \<Rightarrow> Player Player_methods" where
  "mpd_methods fill = \<lparr>method_Tracks = Player_Tracks fill, method_TrackInfo = Player_TrackInfo fill\<rparr>"

text \<open>
  \<open>cached\<close> is the field \<open>tracks\<close> (\<open>None\<close> is the nil slice), \<open>index\<close> the map
  from URI to the track at its slot (\<open>None\<close> is the nil map; the slice is never
  changed in place, so the pointer to a slot is the track in it), \<open>stored_err\<close> the
  field \<open>err\<close>, and \<open>cache_emitted\<close> what the cache's own emitter was given.
\<close>

record 'p TrackCache =
  cache_Player :: 'p
  cached :: "Track list option"
  index :: "(string \<rightharpoonup> Track) option"
  stored_err :: "go_error option"
  cache_emitted :: "string list"

definition build_index :: "Track list \<Rightarrow> (string \<rightharpoonup> Track)" where
  "build_index ts = fold (\<lambda>track m. m(Uri track \<mapsto> track)) ts Map.empty"

definition reloadTracks :: "'p Player_methods \<Rightarrow> 'p TrackCache \<Rightarrow> abnormal + 'p TrackCache" where
  "reloadTracks player cache =
     (case method_Tracks player (cache_Player cache) of
        Inl ab \<Rightarrow> Inl ab
      | Inr (Inl err, p') \<Rightarrow>
          Inr (cache\<lparr>cache_Player := p', stored_err := Some err, cached := None, index := None\<rparr>)
      | Inr (Inr ts, p') \<Rightarrow>
          Inr (cache\<lparr>cache_Player := p', cached := Some ts, index := Some (build_index ts)\<rparr>))"

text \<open>What \<open>Tracks\<close> returns from the fields it reads under the read lock.\<close>

definition read_tracks :: "'p TrackCache \<Rightarrow> go_error + Track list option" where
  "read_tracks cache = (case stored_err cache of Some err \<Rightarrow> Inl err | None \<Rightarrow> Inr (cached cache))"


text \<open>
  The loop of \<open>TrackInfo\<close>: a URI of the index is answered from it; for any other
  the player is asked, and the first track of its answer is taken. Taking the first
  element of an empty slice is a panic.
\<close>

fun lookup_uris ::
  "'p Player_methods \<Rightarrow> (string \<rightharpoonup> Track) option \<Rightarrow> string list \<Rightarrow> 'p
     \<Rightarrow> abnormal + ((go_error + Track list) \<times> 'p)" where
  "lookup_uris player idx [] p = Inr (Inr [], p)"
| "lookup_uris player idx (uri # uris) p =
     (case (case idx of None \<Rightarrow> None | Some m \<Rightarrow> m uri) of
        Some track \<Rightarrow>
          (case lookup_uris player idx uris p of
             Inl ab \<Rightarrow> Inl ab
           | Inr (Inl err, p') \<Rightarrow> Inr (Inl err, p')
           | Inr (Inr found, p') \<Rightarrow> Inr (Inr (track # found), p'))
      | None \<Rightarrow>
          (case method_TrackInfo player [uri] p of
             Inl ab \<Rightarrow> Inl ab
           | Inr (Inl err, p1) \<Rightarrow> Inr (Inl err, p1)
           | Inr (Inr [], p1) \<Rightarrow> Inl (Panics ''index out of range [0] with length 0'')
           | Inr (Inr (track # others), p1) \<Rightarrow>
               (case lookup_uris player idx uris p1 of
                  Inl ab \<Rightarrow> Inl ab
                | Inr (Inl err, p') \<Rightarrow> Inr (Inl err, p')
                | Inr (Inr found, p') \<Rightarrow> Inr (Inr (track # found), p'))))"

definition TrackCache_TrackInfo ::
  "'p Player_methods \<Rightarrow> string list \<Rightarrow> 'p TrackCache
     \<Rightarrow> abnormal + ((go_error + Track list) \<times> 'p TrackCache)" where
  "TrackCache_TrackInfo player uris cache =
     (case stored_err cache of
        Some err \<Rightarrow> Inr (Inl err, cache)
      | None \<Rightarrow>
          (case (if cached cache = None then reloadTracks player cache else Inr cache) of
             Inl ab \<Rightarrow> Inl ab
           | Inr cache1 \<Rightarrow>
               (case lookup_uris player (index cache1) uris (cache_Player cache1) of
                  Inl ab \<Rightarrow> Inl ab
                | Inr (res, p') \<Rightarrow> Inr (res, cache1\<lparr>cache_Player := p'\<rparr>))))"


definition empty_cache :: "'p \<Rightarrow> 'p TrackCache" where
  "empty_cache p =
     \<lparr>cache_Player = p, cached = None, index = None, stored_err = None, cache_emitted = []\<rparr>"




subsection \<open>Concurrent callers of \<open>Tracks\<close>\<close>

text \<open>
  \<open>Tracks\<close> works in three sections, each under the lock it names, and the lock is
  free between them: the test \<open>cache.tracks == nil\<close> under the read lock
  (\<open>Calling\<close> is a caller about to make it), the reload under the write lock
  (\<open>Upgrading\<close>: the test found nil and the read lock is released), and the read of
  the result under the read lock again (\<open>Reading\<close>). A writer excludes everybody and
  readers do not write, so each section is one step on the shared cache; the scheduler
  picks which caller goes next. \<open>reloads\<close> counts the calls of \<open>reloadTracks\<close>.
  A step is \<open>None\<close> for a caller that has returned and when the player's \<open>Tracks()\<close>
  does not return.
\<close>

datatype caller = Calling | Upgrading | Reading | Returned "go_error + Track list option"

record 'p callers_state =
  shared :: "'p TrackCache"
  callers :: "caller list"
  reloads :: nat

definition callers_init :: "nat \<Rightarrow> 'p TrackCache \<Rightarrow> 'p callers_state" where
  "callers_init n cache = \<lparr>shared = cache, callers = replicate n Calling, reloads = 0\<rparr>"

definition caller_step :: "'p Player_methods \<Rightarrow> nat \<Rightarrow> 'p callers_state \<Rightarrow> 'p callers_state option" where
  "caller_step player i s =
     (if i < length (callers s)
      then (case callers s ! i of
              Calling \<Rightarrow>
                Some (s\<lparr>callers := (callers s)[i := (if cached (shared s) = None then Upgrading
                                                      else Returned (read_tracks (shared s)))]\<rparr>)
            | Upgrading \<Rightarrow>
                (case reloadTracks player (shared s) of
                   Inl ab \<Rightarrow> None
                 | Inr cache1 \<Rightarrow>
                     Some (s\<lparr>shared := cache1, callers := (callers s)[i := Reading],
                             reloads := Suc (reloads s)\<rparr>))
            | Reading \<Rightarrow> Some (s\<lparr>callers := (callers s)[i := Returned (read_tracks (shared s))]\<rparr>)
            | Returned r \<Rightarrow> None)
      else None)"

fun callers_run :: "'p Player_methods \<Rightarrow> nat list \<Rightarrow> 'p callers_state \<Rightarrow> 'p callers_state option" where
  "callers_run player [] s = Some s"
| "callers_run player (i # sched) s =
     (case caller_step player i s of None \<Rightarrow> None | Some s' \<Rightarrow> callers_run player sched s')"

fun has_returned :: "caller \<Rightarrow> bool" where
  "has_returned (Returned r) = True"
| "has_returned c = False"

text \<open>The calls of \<open>reloadTracks\<close> that a caller still has ahead of it, at most.\<close>

fun reloads_ahead :: "caller \<Rightarrow> nat" where
  "reloads_ahead Calling = 1"
| "reloads_ahead Upgrading = 1"
| "reloads_ahead c = 0"

fun before_reload :: "caller \<Rightarrow> bool" where
  "before_reload Calling = True"
| "before_reload Upgrading = True"
| "before_reload c = False"

text \<open>
  Two invariants of the callers: as long as nothing was reloaded the list is nil and
  every caller is still before its reload; and once the list is loaded and no caller is
  about to reload, it stays so.
\<close>

definition nothing_loaded :: "'p callers_state \<Rightarrow> bool" where
  "nothing_loaded s =
     (reloads s = 0 \<longrightarrow> cached (shared s) = None \<and> list_all before_reload (callers s))"

definition settled :: "'p callers_state \<Rightarrow> bool" where
  "settled s = (cached (shared s) \<noteq> None \<and> list_all (\<lambda>c. c \<noteq> Upgrading) (callers s))"

text \<open>
  A player whose \<open>Tracks()\<close> gives the answers of a script, one per call, and then an
  empty catalogue; its \<open>TrackInfo\<close> knows no track.
\<close>

definition scripted :: "(go_error + Track list) list Player_methods" where
  "scripted =
     \<lparr>method_Tracks = (\<lambda>script. case script of [] \<Rightarrow> Inr (Inr [], []) | a # rest \<Rightarrow> Inr (a, rest)),
      method_TrackInfo = (\<lambda>uris script. Inr (Inr (map (\<lambda>uri. zero_Track) uris), script))\<rparr>"


section \<open>Concrete inputs\<close>

text \<open>
  A daemon with nothing queued and a network without faults, pool entries that are
  alive or dead, and a player around a given pool: the inputs on which the theorems
  below are run.
\<close>

definition quiet :: environment where
  "quiet = \<lparr>mpd_queue = [], mpd_status = Map.empty, mpd_current = Map.empty,
     mpd_listing = (\<lambda>path. []), mpd_stickers = Map.empty, mpd_seeks = [], mpd_dialled = 0,
     mpd_closed = [], faults = [], clock = 0\<rparr>"

definition live :: "mpd_Client \<Rightarrow> reusableClient" where
  "live c = \<lparr>client = Some c, reset_closed = False, expire = 30 * Second\<rparr>"

definition dead :: reusableClient where
  "dead = \<lparr>client = None, reset_closed = True, expire = 30 * Second\<rparr>"

definition player_with :: "reusableClient list \<Rightarrow> environment \<Rightarrow> Player" where
  "player_with pool e =
     \<lparr>clientPool = pool, playlist = [], lastTrack = [], emitted = [], logged = [], env = e\<rparr>"

text \<open>A player whose playlist is what the daemon has queued.\<close>

definition synced_player :: Player where
  "synced_player =
     (player_with [live 1] (quiet\<lparr>mpd_queue := [[''file'' \<mapsto> ''a.mp3'']]\<rparr>))
       \<lparr>playlist := [\<lparr>pt_Uri = ''mpd://a.mp3'', QueuedBy = ''system'', Progress = 0\<rparr>]\<rparr>"




text \<open>
  A daemon whose library has the directory \<open>albums\<close>: listing it gives the entry of
  the directory first, then the song in it.
\<close>

definition library_with_directory :: environment where
  "library_with_directory =
     quiet\<lparr>mpd_listing := (\<lambda>path. if path = ''albums''
                                then [[''directory'' \<mapsto> ''albums''],
                                      [''file'' \<mapsto> ''albums/a.mp3'', ''Title'' \<mapsto> ''A'']]
                                else [])\<rparr>"

section \<open>Facts about the string helpers\<close>

lemma strings_HasPrefix_append: "strings_HasPrefix (p @ s) p"
  by (simp add: strings_HasPrefix_def)

lemma strings_HasPrefix_iff: "strings_HasPrefix s p \<longleftrightarrow> (\<exists>r. s = p @ r)"
proof
  assume "strings_HasPrefix s p"
  then have "s = p @ drop (length p) s"
    by (metis append_take_drop_id strings_HasPrefix_def)
  then show "\<exists>r. s = p @ r" ..
next
  assume "\<exists>r. s = p @ r"
  then show "strings_HasPrefix s p"
    by (auto simp: strings_HasPrefix_def)
qed

lemma strings_TrimPrefix_append: "strings_TrimPrefix (p @ s) p = s"
  by (simp add: strings_TrimPrefix_def strings_HasPrefix_append)

lemma strings_Index_nonneg_or_minus1: "strings_Index s sep = - 1 \<or> 0 \<le> strings_Index s sep"
  by (induction s) (auto simp: Let_def)

lemma strings_Index_found: "strings_Index (xs @ sep @ ys) sep \<noteq> - 1"
proof (induction xs)
  case Nil
  show ?case
  proof (cases "sep @ ys")
    case Nil
    then show ?thesis by simp
  next
    case (Cons c cs)
    have "strings_HasPrefix (sep @ ys) sep"
      by (rule strings_HasPrefix_append)
    with Cons show ?thesis by simp
  qed
next
  case (Cons x xs)
  then show ?case
    using strings_Index_nonneg_or_minus1 [of "xs @ sep @ ys" sep]
    by (auto simp: Let_def)
qed

lemma schema_prefix_has_separator:
  assumes "strings_HasPrefix s URI_SCHEMA"
  shows "strings_Index s ''://'' \<noteq> - 1"
proof -
  from assms obtain r where "s = URI_SCHEMA @ r"
    by (auto simp: strings_HasPrefix_iff)
  then have "s = ''mpd'' @ ''://'' @ r"
    by (simp add: URI_SCHEMA_def)
  then show ?thesis
    using strings_Index_found [of "''mpd''" "''://''" r] by simp
qed

section \<open>Round trip of the URI schema translation\<close>

text \<open>
  C10, as stated: for every daemon-side path \<open>s\<close>, \<open>uriToMpd (mpdToUri s) = s\<close>.
  \<open>mpdToUri\<close> leaves a string that already contains \<open>://\<close> alone, and \<open>uriToMpd\<close>
  strips a leading \<open>mpd://\<close>, so a path that itself starts with \<open>mpd://\<close> does
  not come back.
\<close>

theorem mpd_uri_roundtrip_counterexample:
  "uriToMpd (mpdToUri ''mpd://a'') \<noteq> ''mpd://a''"
  by (simp add: uriToMpd_def mpdToUri_def URI_SCHEMA_def strings_TrimPrefix_def
      strings_HasPrefix_def)

text \<open>
  C10, amended: the round trip \<open>uriToMpd (mpdToUri s) = s\<close> holds exactly for the
  paths \<open>s\<close> that do not start with the schema \<open>mpd://\<close>; in particular for every
  path without \<open>://\<close> and for every path with another schema.
\<close>

theorem mpd_uri_roundtrip:
  "(uriToMpd (mpdToUri s) = s) = (\<not> strings_HasPrefix s URI_SCHEMA)"
proof (cases "strings_HasPrefix s URI_SCHEMA")
  case True
  then have "mpdToUri s = s"
    using schema_prefix_has_separator [of s] by (simp add: mpdToUri_def)
  moreover from True have "uriToMpd s = drop (length URI_SCHEMA) s"
    by (simp add: uriToMpd_def strings_TrimPrefix_def)
  moreover from True have "length (drop (length URI_SCHEMA) s) < length s"
    by (auto simp: strings_HasPrefix_def URI_SCHEMA_def)
  then have "drop (length URI_SCHEMA) s \<noteq> s"
    by (metis less_irrefl)
  ultimately show ?thesis using True by simp
next
  case False
  show ?thesis
  proof (cases "strings_Index s ''://'' = - 1")
    case True
    then show ?thesis
      using False by (simp add: mpdToUri_def uriToMpd_def strings_TrimPrefix_append)
  next
    case nosep: False
    then show ?thesis
      using False by (simp add: mpdToUri_def uriToMpd_def strings_TrimPrefix_def)
  qed
qed

theorem mpd_uri_roundtrip_witness:
  "uriToMpd (mpdToUri ''a/b.mp3'') = ''a/b.mp3'' \<and> \<not> strings_HasPrefix ''a/b.mp3'' URI_SCHEMA
   \<and> uriToMpd (mpdToUri ''http://x/y'') = ''http://x/y''"
  using mpd_uri_roundtrip [of "''a/b.mp3''"] mpd_uri_roundtrip [of "''http://x/y''"]
  by (simp add: strings_HasPrefix_def URI_SCHEMA_def)

section \<open>Ranking of search results\<close>

lemma fold_add_length:
  "fold (\<lambda>(name, prop) n. n + length prop) ms k = k + sum_list (map (\<lambda>p. length (snd p)) ms)"
  by (induction ms arbitrary: k) (auto simp: case_prod_beta)

lemma NumMatches_sum: "NumMatches sr = sum_list (map (\<lambda>p. length (snd p)) (Matches sr))"
  by (simp add: NumMatches_def fold_add_length)

text \<open>The insertion sort is the library's stable \<open>sort_key\<close> on the negated count.\<close>

lemma rank_insert_insort:
  "rank_insert x ys = insort_key (\<lambda>r. - int (NumMatches r)) x ys"
  by (induction ys) (auto simp: ByNumMatches_Less_def)

lemma rank_results_sort_key: "rank_results l = sort_key (\<lambda>r. - int (NumMatches r)) l"
  by (induction l) (auto simp: rank_results_def rank_insert_insort sort_key_def)

text \<open>
  C7: the total match count of a result is the sum of the lengths of its match lists;
  ranking orders the results by descending total match count, keeps exactly the results
  it was given, and results with the same count \<open>k\<close> stay in their original order.
\<close>

theorem ranking_descending_stable:
  "NumMatches sr = sum_list (map (\<lambda>p. length (snd p)) (Matches sr))
   \<and> sorted_wrt (\<lambda>a b. NumMatches a \<ge> NumMatches b) (rank_results l)
   \<and> mset (rank_results l) = mset l
   \<and> filter (\<lambda>r. NumMatches r = k) (rank_results l) = filter (\<lambda>r. NumMatches r = k) l"
proof -
  let ?f = "\<lambda>r. - int (NumMatches r)"
  have "sorted (map ?f (sort_key ?f l))" by simp
  then have desc: "sorted_wrt (\<lambda>a b. NumMatches a \<ge> NumMatches b) (rank_results l)"
    by (simp add: sorted_wrt_map rank_results_sort_key)
  have "filter (\<lambda>r. ?f r = - int k) (sort_key ?f l) = filter (\<lambda>r. ?f r = - int k) l"
    by (rule sort_key_stable)
  then have stable:
    "filter (\<lambda>r. NumMatches r = k) (rank_results l) = filter (\<lambda>r. NumMatches r = k) l"
    by (simp add: rank_results_sort_key)
  show ?thesis
    using desc stable by (simp add: NumMatches_sum rank_results_sort_key)
qed

text \<open>
  Three results with one, two and one match: the one with two matches comes first, and
  the two with one match keep their order.
\<close>

lemma ranking_example:
  "rank_results
     [\<lparr>sr_Track = track_titled ''a'' ''Blue Moon'',
        Matches = [(''title'', [\<lparr>Start = 0, End = 4\<rparr>])]\<rparr>,
      \<lparr>sr_Track = track_titled ''b'' ''Blue Blues'',
        Matches = [(''title'', [\<lparr>Start = 0, End = 4\<rparr>, \<lparr>Start = 5, End = 9\<rparr>])]\<rparr>,
      \<lparr>sr_Track = track_titled ''c'' ''Blue Sky'',
        Matches = [(''title'', [\<lparr>Start = 0, End = 4\<rparr>])]\<rparr>]
   = [\<lparr>sr_Track = track_titled ''b'' ''Blue Blues'',
        Matches = [(''title'', [\<lparr>Start = 0, End = 4\<rparr>, \<lparr>Start = 5, End = 9\<rparr>])]\<rparr>,
      \<lparr>sr_Track = track_titled ''a'' ''Blue Moon'',
        Matches = [(''title'', [\<lparr>Start = 0, End = 4\<rparr>])]\<rparr>,
      \<lparr>sr_Track = track_titled ''c'' ''Blue Sky'',
        Matches = [(''title'', [\<lparr>Start = 0, End = 4\<rparr>])]\<rparr>]"
  by (simp add: rank_results_def ByNumMatches_Less_def NumMatches_def)

section \<open>The filter pipeline returns the kept results\<close>

lemma in_flight_update:
  "i < length ws \<Longrightarrow> in_flight (ws[i := w]) + held (ws ! i) = in_flight ws + held w"
  unfolding in_flight_def
  by (induction ws arbitrary: i) (auto simp: nth_Cons' less_Suc_eq_0_disj ac_simps split: nat.splits)

lemma in_flight_all_Exited: "list_all (\<lambda>w. w = Exited) ws \<Longrightarrow> in_flight ws = {#}"
  unfolding in_flight_def by (induction ws) auto

lemma in_flight_replicate: "in_flight (replicate n Receiving) = {#}"
  unfolding in_flight_def by (induction n) auto

lemma list_all_update_weaken:
  "list_all P ws \<Longrightarrow> P w \<Longrightarrow> list_all P (ws[i := w])"
  by (induction ws arbitrary: i) (auto split: nat.splits)

lemma list_all_Exited_nth:
  "list_all (\<lambda>w. w = Exited) ws \<Longrightarrow> i < length ws \<Longrightarrow> ws ! i = Exited"
  by (simp add: list_all_length)

lemma pipeline_inv_init: "pipeline_inv flt tracks (Tracks_init n tracks)"
  by (simp add: pipeline_inv_def Tracks_init_def in_flight_replicate list_all_length)

lemma pipeline_inv_step:
  assumes "pipeline_inv flt tracks p" and "Tracks_step flt a p = Some p'"
  shows "pipeline_inv flt tracks p'"
proof (cases a)
  case (Deliver i)
  with assms(2) obtain track rest where f: "feed p = track # rest"
    and i: "i < length (workers p)" and r: "workers p ! i = Receiving"
    and p': "p' = p\<lparr>feed := rest,
        workers := (workers p)[i := (if snd (flt track) then Sending (fst (flt track)) else Receiving)]\<rparr>"
    by (auto split: list.splits if_splits prod.splits)
  from in_flight_update [OF i, of "if snd (flt track) then Sending (fst (flt track)) else Receiving"] r
  have "in_flight (workers p') = in_flight (workers p) + (if snd (flt track) then {#fst (flt track)#} else {#})"
    by (simp add: p')
  moreover have "mset (kept_results flt (feed p)) = (if snd (flt track) then {#fst (flt track)#} else {#}) + mset (kept_results flt rest)"
    by (simp add: f kept_results_def)
  ultimately have "mset (results p') + in_flight (workers p') + mset (kept_results flt (feed p'))
      = mset (results p) + in_flight (workers p) + mset (kept_results flt (feed p))"
    by (simp add: p')
  moreover from assms(1) f have "\<not> trackStream_closed p" and "list_all (\<lambda>w. w \<noteq> Exited) (workers p)"
    by (auto simp: pipeline_inv_def)
  then have "\<not> trackStream_closed p'" and "list_all (\<lambda>w. w \<noteq> Exited) (workers p')"
    by (auto simp: p' intro: list_all_update_weaken)
  moreover from assms(1) i r have "\<not> matchStream_closed p'"
    by (auto simp: p' pipeline_inv_def dest: list_all_Exited_nth)
  ultimately show ?thesis using assms(1) by (simp add: pipeline_inv_def)
next
  case CloseTracks
  with assms show ?thesis
    by (auto simp: pipeline_inv_def split: if_splits)
next
  case (Collect i)
  with assms(2) obtain res where i: "i < length (workers p)" and r: "workers p ! i = Sending res"
    and p': "p' = p\<lparr>workers := (workers p)[i := Receiving], results := results p @ [res]\<rparr>"
    by (auto split: if_splits worker.splits)
  from in_flight_update [OF i, of Receiving] r
  have e: "in_flight (workers p) = in_flight ((workers p)[i := Receiving]) + {#res#}"
    by simp
  from assms(1) have "mset (results p) + in_flight (workers p) + mset (kept_results flt (feed p))
      = mset (kept_results flt tracks)"
    by (simp add: pipeline_inv_def)
  then have m: "mset (results p') + in_flight (workers p') + mset (kept_results flt (feed p'))
      = mset (kept_results flt tracks)"
    by (simp add: p' e)
  from assms(1) i r have ne: "\<not> list_all (\<lambda>w. w = Exited) (workers p)"
    by (auto dest: list_all_Exited_nth)
  with assms(1) have c: "\<not> matchStream_closed p'" by (auto simp: p' pipeline_inv_def)
  have "list_all (\<lambda>w. w \<noteq> Exited) (workers p) \<Longrightarrow> list_all (\<lambda>w. w \<noteq> Exited) (workers p')"
    by (auto simp: p' intro: list_all_update_weaken)
  with assms(1) have t: "trackStream_closed p' \<or> list_all (\<lambda>w. w \<noteq> Exited) (workers p')"
    by (auto simp: pipeline_inv_def p')
  from assms(1) have f: "feed p' = [] \<or> \<not> trackStream_closed p'"
    by (auto simp: pipeline_inv_def p')
  show ?thesis
    unfolding pipeline_inv_def using m c t f by blast
next
  case (Exit i)
  with assms(2) have i: "i < length (workers p)" and r: "workers p ! i = Receiving"
    and c: "trackStream_closed p" and p': "p' = p\<lparr>workers := (workers p)[i := Exited]\<rparr>"
    by (auto split: if_splits)
  from in_flight_update [OF i, of Exited] r
  have "in_flight (workers p') = in_flight (workers p)" by (simp add: p')
  moreover from assms(1) i r have "\<not> matchStream_closed p'"
    by (auto simp: p' pipeline_inv_def dest: list_all_Exited_nth)
  ultimately show ?thesis using assms(1) c by (auto simp: pipeline_inv_def p')
next
  case CloseMatches
  with assms show ?thesis
    by (auto simp: pipeline_inv_def split: if_splits)
qed

lemma pipeline_inv_run:
  "pipeline_inv flt tracks p \<Longrightarrow> Tracks_run flt as p = Some p' \<Longrightarrow> pipeline_inv flt tracks p'"
  by (induction as arbitrary: p) (auto split: option.splits dest: pipeline_inv_step)

lemma length_workers_step: "Tracks_step flt a p = Some p' \<Longrightarrow> length (workers p') = length (workers p)"
  by (cases a) (auto split: list.splits if_splits prod.splits worker.splits)

lemma length_workers_run:
  "Tracks_run flt as p = Some p' \<Longrightarrow> length (workers p') = length (workers p)"
  by (induction as arbitrary: p) (auto split: option.splits dest: length_workers_step)

lemma finished_results:
  assumes inv: "pipeline_inv flt tracks p" and fin: "matchStream_closed p" and n: "workers p \<noteq> []"
  shows "mset (results p) = mset (kept_results flt tracks)"
proof -
  from inv fin have ex: "list_all (\<lambda>w. w = Exited) (workers p)"
    by (auto simp: pipeline_inv_def)
  with n have "\<not> list_all (\<lambda>w. w \<noteq> Exited) (workers p)"
    by (cases "workers p") auto
  with inv have "feed p = []" by (auto simp: pipeline_inv_def)
  with inv in_flight_all_Exited [OF ex] show ?thesis
    by (simp add: pipeline_inv_def kept_results_def)
qed


lemma weight_update:
  "i < length ws \<Longrightarrow>
     sum_list (map weight (ws[i := w])) + weight (ws ! i) = sum_list (map weight ws) + weight w"
  by (induction ws arbitrary: i) (auto simp: nth_Cons' split: nat.splits)

lemma remaining_step:
  assumes "Tracks_step flt a p = Some p'"
  shows "remaining p' < remaining p"
proof (cases a)
  case (Deliver i)
  with assms obtain track rest where f: "feed p = track # rest"
    and i: "i < length (workers p)" and r: "workers p ! i = Receiving"
    and q: "p' = p\<lparr>feed := rest,
        workers := (workers p)[i := (if snd (flt track) then Sending (fst (flt track)) else Receiving)]\<rparr>"
    by (auto split: list.splits if_splits prod.splits)
  define w where "w = (if snd (flt track) then Sending (fst (flt track)) else Receiving)"
  then have w: "weight w \<le> 2" by simp
  from q have p': "p' = p\<lparr>feed := rest, workers := (workers p)[i := w]\<rparr>"
    by (simp add: w_def)
  from weight_update [OF i, of w] r w
  have "sum_list (map weight (workers p')) \<le> sum_list (map weight (workers p)) + 1"
    by (simp add: p')
  then show ?thesis by (simp add: remaining_def p' f)
next
  case CloseTracks
  with assms show ?thesis by (auto simp: remaining_def split: if_splits)
next
  case (Collect i)
  with assms obtain res where i: "i < length (workers p)" and r: "workers p ! i = Sending res"
    and p': "p' = p\<lparr>workers := (workers p)[i := Receiving], results := results p @ [res]\<rparr>"
    by (auto split: if_splits worker.splits)
  from weight_update [OF i, of Receiving] r
  have "sum_list (map weight (workers p')) < sum_list (map weight (workers p))"
    by (simp add: p')
  then show ?thesis by (simp add: remaining_def p')
next
  case (Exit i)
  with assms have i: "i < length (workers p)" and r: "workers p ! i = Receiving"
    and p': "p' = p\<lparr>workers := (workers p)[i := Exited]\<rparr>"
    by (auto split: if_splits)
  from weight_update [OF i, of Exited] r
  have "sum_list (map weight (workers p')) < sum_list (map weight (workers p))"
    by (simp add: p')
  then show ?thesis by (simp add: remaining_def p')
next
  case CloseMatches
  with assms show ?thesis by (auto simp: remaining_def split: if_splits)
qed

lemma remaining_run:
  "Tracks_run flt as p = Some p' \<Longrightarrow> remaining p' + length as \<le> remaining p"
proof (induction as arbitrary: p)
  case Nil
  then show ?case by simp
next
  case (Cons a as)
  then obtain q where q: "Tracks_step flt a p = Some q" and r: "Tracks_run flt as q = Some p'"
    by (auto split: option.splits)
  from Cons.IH [OF r] remaining_step [OF q] show ?case by simp
qed

lemma remaining_init: "remaining (Tracks_init n tracks) = 2 * length tracks + n + 2"
  by (simp add: remaining_def Tracks_init_def sum_list_replicate)

lemma worker_cases:
  "(\<exists>i res. i < length ws \<and> ws ! i = Sending res)
   \<or> (\<exists>i. i < length ws \<and> ws ! i = Receiving)
   \<or> list_all (\<lambda>w. w = Exited) ws"
proof (induction ws)
  case Nil
  then show ?case by simp
next
  case (Cons w ws)
  show ?case
  proof (cases w)
    case Receiving
    then have "0 < length (w # ws) \<and> (w # ws) ! 0 = Receiving" by simp
    then show ?thesis by blast
  next
    case (Sending res)
    then have "0 < length (w # ws) \<and> (w # ws) ! 0 = Sending res" by simp
    then show ?thesis by blast
  next
    case Exited
    from Cons.IH show ?thesis
    proof (elim disjE exE conjE)
      fix i res assume "i < length ws" "ws ! i = Sending res"
      then have "Suc i < length (w # ws) \<and> (w # ws) ! Suc i = Sending res" by simp
      then show ?thesis by blast
    next
      fix i assume "i < length ws" "ws ! i = Receiving"
      then have "Suc i < length (w # ws) \<and> (w # ws) ! Suc i = Receiving" by simp
      then show ?thesis by blast
    next
      assume "list_all (\<lambda>w. w = Exited) ws"
      with Exited show ?thesis by simp
    qed
  qed
qed

lemma no_deadlock:
  assumes inv: "pipeline_inv flt tracks p" and running: "\<not> matchStream_closed p"
  shows "\<exists>a. Tracks_step flt a p \<noteq> None"
proof -
  consider (send) i res where "i < length (workers p)" "workers p ! i = Sending res"
    | (recv) i where "i < length (workers p)" "workers p ! i = Receiving"
    | (gone) "list_all (\<lambda>w. w = Exited) (workers p)"
    using worker_cases [of "workers p"] by blast
  then show ?thesis
  proof cases
    case send
    with running have "Tracks_step flt (Collect i) p \<noteq> None" by simp
    then show ?thesis ..
  next
    case recv
    show ?thesis
    proof (cases "feed p")
      case Nil
      show ?thesis
      proof (cases "trackStream_closed p")
        case True
        with recv have "Tracks_step flt (Exit i) p \<noteq> None" by simp
        then show ?thesis ..
      next
        case False
        with Nil have "Tracks_step flt CloseTracks p \<noteq> None" by simp
        then show ?thesis ..
      qed
    next
      case (Cons track rest)
      with recv have "Tracks_step flt (Deliver i) p \<noteq> None"
        by (simp split: prod.splits)
      then show ?thesis ..
    qed
  next
    case gone
    with running have "Tracks_step flt CloseMatches p \<noteq> None" by simp
    then show ?thesis ..
  qed
qed

lemma can_finish:
  "pipeline_inv flt tracks p \<Longrightarrow>
     \<exists>as p'. Tracks_run flt as p = Some p' \<and> matchStream_closed p'"
proof (induction "remaining p" arbitrary: p rule: less_induct)
  case less
  show ?case
  proof (cases "matchStream_closed p")
    case True
    then have "Tracks_run flt [] p = Some p \<and> matchStream_closed p" by simp
    then show ?thesis by blast
  next
    case False
    with less.prems obtain a q where q: "Tracks_step flt a p = Some q"
      using no_deadlock by blast
    from less.hyps [OF remaining_step [OF q] pipeline_inv_step [OF less.prems q]]
    obtain as p' where "Tracks_run flt as q = Some p'" "matchStream_closed p'" by blast
    with q have "Tracks_run flt (a # as) p = Some p' \<and> matchStream_closed p'" by simp
    then show ?thesis by blast
  qed
qed

text \<open>
  C5: for every catalogue, every filter and every number of workers (at least one, as
  \<open>runtime.NumCPU\<close> is), under every schedule: the pipeline can always run to its
  end, it ends after at most \<open>2 * length tracks + numCPU + 2\<close> communications, it
  cannot get stuck before the end, and at the end the result list is, as a multiset,
  the kept results, one per matching track.
\<close>

theorem Tracks_results_multiset:
  assumes "0 < numCPU"
  shows "(\<exists>as p. Tracks_run flt as (Tracks_init numCPU tracks) = Some p \<and> matchStream_closed p)
    \<and> (\<forall>as p. Tracks_run flt as (Tracks_init numCPU tracks) = Some p \<longrightarrow>
          length as \<le> 2 * length tracks + numCPU + 2
          \<and> (matchStream_closed p \<longrightarrow> mset (results p) = mset (kept_results flt tracks))
          \<and> (\<not> matchStream_closed p \<longrightarrow> (\<exists>a. Tracks_step flt a p \<noteq> None)))"
proof (intro conjI allI impI)
  show "\<exists>as p. Tracks_run flt as (Tracks_init numCPU tracks) = Some p \<and> matchStream_closed p"
    using can_finish [OF pipeline_inv_init] .
next
  fix as p assume run: "Tracks_run flt as (Tracks_init numCPU tracks) = Some p"
  from remaining_run [OF run] show "length as \<le> 2 * length tracks + numCPU + 2"
    by (simp add: remaining_init)
  have inv: "pipeline_inv flt tracks p"
    using pipeline_inv_run [OF pipeline_inv_init run] .
  { assume "matchStream_closed p"
    moreover from length_workers_run [OF run] assms have "workers p \<noteq> []"
      by (auto simp: Tracks_init_def)
    ultimately show "mset (results p) = mset (kept_results flt tracks)"
      using finished_results [OF inv] by simp }
  { assume "\<not> matchStream_closed p"
    then show "\<exists>a. Tracks_step flt a p \<noteq> None"
      using no_deadlock [OF inv] by simp }
qed

theorem Tracks_results_multiset_witness:
  "0 < (2::nat)
   \<and> Tracks_run title_is_blue
        [Deliver 0, Deliver (Suc 0), Deliver (Suc 0), CloseTracks, Collect (Suc 0),
         Collect 0, Exit 0, Exit (Suc 0), CloseMatches]
        (Tracks_init 2 [track_titled ''a'' ''Blue Moon'', track_titled ''b'' ''Red Sun'', track_titled ''c'' ''Blue Sky''])
      = Some \<lparr>feed = [], trackStream_closed = True, workers = [Exited, Exited],
           results = [fst (title_is_blue (track_titled ''c'' ''Blue Sky'')),
                      fst (title_is_blue (track_titled ''a'' ''Blue Moon''))],
           matchStream_closed = True\<rparr>
   \<and> mset [fst (title_is_blue (track_titled ''c'' ''Blue Sky'')), fst (title_is_blue (track_titled ''a'' ''Blue Moon''))]
      = mset (kept_results title_is_blue
          [track_titled ''a'' ''Blue Moon'', track_titled ''b'' ''Red Sun'', track_titled ''c'' ''Blue Sky''])"
proof -
  let ?cat = "[track_titled ''a'' ''Blue Moon'', track_titled ''b'' ''Red Sun'', track_titled ''c'' ''Blue Sky'']"
  let ?end = "\<lparr>feed = [], trackStream_closed = True, workers = [Exited, Exited],
           results = [fst (title_is_blue (track_titled ''c'' ''Blue Sky'')),
                      fst (title_is_blue (track_titled ''a'' ''Blue Moon''))],
           matchStream_closed = True\<rparr>"
  have two: "0 < (2::nat)" by simp
  have run: "Tracks_run title_is_blue
        [Deliver 0, Deliver (Suc 0), Deliver (Suc 0), CloseTracks, Collect (Suc 0),
         Collect 0, Exit 0, Exit (Suc 0), CloseMatches] (Tracks_init 2 ?cat) = Some ?end"
    by (simp add: Tracks_init_def title_is_blue_def track_titled_def numeral_2_eq_2)
  from Tracks_results_multiset [OF two, of title_is_blue ?cat] run
  have "mset (results ?end) = mset (kept_results title_is_blue ?cat)"
    by (metis (no_types, lifting) pipeline.select_convs(5))
  with two run show ?thesis by simp
qed

section \<open>The keepalive goroutine\<close>











section \<open>Acquiring a pooled connection\<close>

text \<open>An acquisition returns an error exactly when the entry it took is dead and the dial fails.\<close>

lemma acquire_error_iff:
  "(\<exists>pl1. acquire pl = Inr (Inl err, pl1))
     \<longleftrightarrow> (\<exists>reClient rest cause e'. clientPool pl = reClient # rest \<and> client reClient = None
            \<and> mpd_DialAuthenticated (env pl) = (Inl cause, e')
            \<and> err = fmt_Errorf ''Error connecting to MPD: '' cause)"
  by (auto simp: acquire_def newClient_def run_step_def
           split: list.splits option.splits prod.splits sum.splits if_splits)

text \<open>On that path nothing is put back: the pool has lost the entry that was taken.\<close>

lemma withMpd_error_path_pool:
  assumes "acquire pl = Inr (Inl err, pl1)"
  shows "withMpd fn pl = Inr (Some err, pl1) \<and> clientPool pl1 = tl (clientPool pl)"
  using assms
  by (auto simp: withMpd_def acquire_def newClient_def
           split: list.splits option.splits prod.splits sum.splits if_splits)

text \<open>
  On the other path the callback runs with the client of the entry, taken after the
  replacement, and the entry goes back to the end of the pool.
\<close>

lemma withMpd_success_path:
  assumes "acquire pl = Inr (Inr (rc, c), pl1)"
  shows "client rc = Some c \<and> clientPool pl1 = tl (clientPool pl)
       \<and> withMpd fn pl
          = (case fn c pl1 of
               Inl ab \<Rightarrow> Inl ab
             | Inr (res, pl2) \<Rightarrow> Inr (res, pl2\<lparr>clientPool := clientPool pl2 @ [rc]\<rparr>))"
  using assms
  by (auto simp: withMpd_def acquire_def newClient_def run_step_def
           split: list.splits option.splits prod.splits sum.splits if_splits)

text \<open>
  C1 at a concrete input. \<open>Connect\<close> fills the pool with six connections. The ping of
  the first one fails, so its keepalive goroutine closes it and sets its client to nil.
  The next acquisition (\<open>Available\<close>, which is \<open>withMpd\<close> around a ping) takes that
  entry, cannot dial a replacement, and returns the error: the pool is left with five
  entries. The acquisition after it succeeds, and the pool still has five entries. With
  a pool that has lost all its entries in this way, an acquisition blocks although the
  daemon can be reached again.
\<close>

theorem withMpd_failed_replacement_loses_slot:
  "Connect quiet
     = Inr (player_with [live 0, live 1, live 2, live 3, live 4, live 5] (quiet\<lparr>mpd_dialled := 6\<rparr>))
   \<and> pool_run_step 0 PingTick
       (player_with [live 0, live 1, live 2, live 3, live 4, live 5]
          (quiet\<lparr>mpd_dialled := 6,
                 faults := [Some (GoError ''broken pipe''), Some (GoError ''connection refused'')]\<rparr>))
     = Some (player_with [dead, live 1, live 2, live 3, live 4, live 5]
          (quiet\<lparr>mpd_dialled := 6, mpd_closed := [0],
                 faults := [Some (GoError ''connection refused'')]\<rparr>))
   \<and> Available (player_with [dead, live 1, live 2, live 3, live 4, live 5]
          (quiet\<lparr>mpd_dialled := 6, mpd_closed := [0],
                 faults := [Some (GoError ''connection refused'')]\<rparr>))
     = Inr (False, player_with [live 1, live 2, live 3, live 4, live 5]
          (quiet\<lparr>mpd_dialled := 6, mpd_closed := [0]\<rparr>))
   \<and> Available (player_with [live 1, live 2, live 3, live 4, live 5]
          (quiet\<lparr>mpd_dialled := 6, mpd_closed := [0]\<rparr>))
     = Inr (True, player_with [live 2, live 3, live 4, live 5, live 1]
          (quiet\<lparr>mpd_dialled := 6, mpd_closed := [0]\<rparr>))
   \<and> Available (player_with [dead] (quiet\<lparr>faults := [Some (GoError ''connection refused'')]\<rparr>))
     = Inr (False, player_with [] quiet)
   \<and> Available (player_with [] quiet) = Inl Blocks"
proof -
  note defs = Available_def withMpd_def acquire_def newClient_def mpd_DialAuthenticated_def
    mpd_Ping_def mpd_Close_def request_def run_step_def player_with_def quiet_def live_def
    dead_def fmt_Errorf_def pool_run_step_def
  have "Connect quiet
     = Inr (player_with [live 0, live 1, live 2, live 3, live 4, live 5] (quiet\<lparr>mpd_dialled := 6\<rparr>))"
    by (simp add: Connect_def eval_nat_numeral defs)
  then show ?thesis
    by (simp add: defs)
qed

section \<open>Decimal numbers: formatting and parsing back\<close>









text \<open>A count that no longer fits 32 bits is read back clamped, with the range error.\<close>

lemma ParseInt_clamps: "strconv_ParseInt ''2147483648'' = (2147483647, Some ErrRange)"
  by (simp add: strconv_ParseInt_def strconv_ParseUint_def is_digit_def digit_val_def
        uint64_cutoff_def maxUint32_def)

section \<open>The sync loop: a playlist that is already in sync\<close>

lemma songs_match_from_iff:
  "i + length songs \<le> length plist \<Longrightarrow>
     songs_match_from i songs plist
       = (\<forall>k < length songs. mpdToUri (attr (songs ! k) ''file'') = TrackUri (plist ! (i + k)))"
proof (induction songs arbitrary: i)
  case Nil
  then show ?case by simp
next
  case (Cons s songs)
  then have "songs_match_from (Suc i) songs plist
      = (\<forall>k < length songs. mpdToUri (attr (songs ! k) ''file'') = TrackUri (plist ! (Suc i + k)))"
    by simp
  then show ?case
    by (auto simp: less_Suc_eq_0_disj)
qed

lemma playlistMatchesServer_answer:
  assumes "mpd_PlaylistInfo c e = (Inr songs, e')"
  shows "fst (playlistMatchesServer c e plist)
     = Inr (length songs = length plist
            \<and> (\<forall>i < length songs. mpdToUri (attr (songs ! i) ''file'') = TrackUri (plist ! i)))"
proof (cases "length plist = length songs")
  case True
  then show ?thesis
    using assms songs_match_from_iff [of 0 songs plist]
    by (simp add: playlistMatchesServer_def)
next
  case False
  then show ?thesis
    using assms by (auto simp: playlistMatchesServer_def)
qed

lemma acquire_Emit:
  "acquire (Emit ev pl)
     = (case acquire pl of Inl ab \<Rightarrow> Inl ab | Inr (r, p) \<Rightarrow> Inr (r, Emit ev p))"
  by (auto simp: acquire_def Emit_def newClient_def
           split: list.splits option.splits prod.splits sum.splits)

lemma acquire_frame:
  assumes "acquire pl = Inr (r, pl1)"
  shows "playlist pl1 = playlist pl \<and> lastTrack pl1 = lastTrack pl
       \<and> emitted pl1 = emitted pl \<and> logged pl1 = logged pl"
  using assms
  by (auto simp: acquire_def newClient_def
           split: list.splits option.splits prod.splits sum.splits)

lemma syncPlaylist_in_sync:
  assumes "fst (playlistMatchesServer c (env pl) (playlist pl)) = Inr True"
  shows "syncPlaylist interpolate c pl
     = Inr (None, pl\<lparr>env := snd (playlistMatchesServer c (env pl) (playlist pl))\<rparr>)"
  using assms by (cases "playlistMatchesServer c (env pl) (playlist pl)") (simp add: syncPlaylist_def)

lemma in_sync_step:
  assumes acq: "acquire pl = Inr (Inr (rc, c), pl1)"
    and sync: "fst (playlistMatchesServer c (env pl1) (playlist pl1)) = Inr True"
  shows "\<exists>pl'. logged_withMpd (syncPlaylist interpolate) pl = Inr pl'
           \<and> playlist pl' = playlist pl \<and> emitted pl' = emitted pl"
  using acquire_frame [OF acq] syncPlaylist_in_sync [OF sync, of interpolate]
  by (simp add: logged_withMpd_def withMpd_def acq)

text \<open>
  C3: when the daemon answers \<open>PlaylistInfo\<close> with \<open>songs\<close>,
  \<open>playlistMatchesServer\<close> returns true exactly when the queue and the local playlist
  have the same length and the same URI at every position. When the iteration of the
  sync loop has acquired its connection and \<open>playlistMatchesServer\<close> returns true
  there, the iteration for \<open>"mpd-playlist"\<close> leaves the playlist as it is and emits
  nothing; the one for \<open>"mpd-player"\<close> (which falls through to the same case) leaves
  the playlist as it is and emits only \<open>"playstate"\<close> and \<open>"progress"\<close>.
\<close>

theorem playlist_in_sync_is_noop:
  "(mpd_PlaylistInfo c e = (Inr songs, e') \<longrightarrow>
      fst (playlistMatchesServer c e plist)
        = Inr (length songs = length plist
               \<and> (\<forall>i < length songs. mpdToUri (attr (songs ! i) ''file'') = TrackUri (plist ! i))))
   \<and> (acquire pl = Inr (Inr (rc, c), pl1)
        \<and> fst (playlistMatchesServer c (env pl1) (playlist pl1)) = Inr True \<longrightarrow>
        (\<exists>pl'. mainLoop_step interpolate ''mpd-playlist'' pl = Inr pl'
           \<and> playlist pl' = playlist pl \<and> emitted pl' = emitted pl)
      \<and> (\<exists>pl'. mainLoop_step interpolate ''mpd-player'' pl = Inr pl'
           \<and> playlist pl' = playlist pl
           \<and> emitted pl' = emitted pl @ [''playstate'', ''progress'']))"
proof (intro conjI impI)
  assume "mpd_PlaylistInfo c e = (Inr songs, e')"
  then show "fst (playlistMatchesServer c e plist)
        = Inr (length songs = length plist
               \<and> (\<forall>i < length songs. mpdToUri (attr (songs ! i) ''file'') = TrackUri (plist ! i)))"
    by (rule playlistMatchesServer_answer)
next
  assume a: "acquire pl = Inr (Inr (rc, c), pl1)
        \<and> fst (playlistMatchesServer c (env pl1) (playlist pl1)) = Inr True"
  then show "\<exists>pl'. mainLoop_step interpolate ''mpd-playlist'' pl = Inr pl'
           \<and> playlist pl' = playlist pl \<and> emitted pl' = emitted pl"
    using in_sync_step [of pl rc c pl1 interpolate] by (simp add: mainLoop_step_def)
next
  assume a: "acquire pl = Inr (Inr (rc, c), pl1)
        \<and> fst (playlistMatchesServer c (env pl1) (playlist pl1)) = Inr True"
  let ?pl = "Emit ''progress'' (Emit ''playstate'' pl)"
  let ?pl1 = "Emit ''progress'' (Emit ''playstate'' pl1)"
  from a have acq: "acquire ?pl = Inr (Inr (rc, c), ?pl1)"
    by (simp add: acquire_Emit)
  from a have sync: "fst (playlistMatchesServer c (env ?pl1) (playlist ?pl1)) = Inr True"
    by (simp add: Emit_def)
  from in_sync_step [OF acq sync, of interpolate]
  show "\<exists>pl'. mainLoop_step interpolate ''mpd-player'' pl = Inr pl'
           \<and> playlist pl' = playlist pl
           \<and> emitted pl' = emitted pl @ [''playstate'', ''progress'']"
    by (simp add: mainLoop_step_def Emit_def)
qed

theorem playlist_in_sync_is_noop_witness:
  "mpd_PlaylistInfo 1 (env synced_player) = (Inr [[''file'' \<mapsto> ''a.mp3'']], env synced_player)
   \<and> fst (playlistMatchesServer 1 (env synced_player) (playlist synced_player)) = Inr True
   \<and> fst (playlistMatchesServer 1 (env synced_player) []) = Inr False
   \<and> acquire synced_player = Inr (Inr (live 1, 1), synced_player\<lparr>clientPool := []\<rparr>)
   \<and> (\<exists>pl'. mainLoop_step (\<lambda>old ids. []) ''mpd-playlist'' synced_player = Inr pl'
         \<and> playlist pl' = playlist synced_player \<and> emitted pl' = emitted synced_player)
   \<and> (\<exists>pl'. mainLoop_step (\<lambda>old ids. []) ''mpd-player'' synced_player = Inr pl'
         \<and> playlist pl' = playlist synced_player
         \<and> emitted pl' = emitted synced_player @ [''playstate'', ''progress''])"
proof -
  have info: "mpd_PlaylistInfo 1 (env synced_player)
      = (Inr [[''file'' \<mapsto> ''a.mp3'']], env synced_player)"
    by (simp add: synced_player_def player_with_def quiet_def mpd_PlaylistInfo_def request_def)
  have acq: "acquire synced_player = Inr (Inr (live 1, 1), synced_player\<lparr>clientPool := []\<rparr>)"
    by (simp add: synced_player_def player_with_def quiet_def live_def acquire_def run_step_def)
  have yes: "fst (playlistMatchesServer 1 (env synced_player) (playlist synced_player)) = Inr True"
    using playlist_in_sync_is_noop [of 1 "env synced_player" "[[''file'' \<mapsto> ''a.mp3'']]"
        "env synced_player" "playlist synced_player"] info
    by (simp add: synced_player_def player_with_def TrackUri_def mpdToUri_def attr_def
          URI_SCHEMA_def strings_HasPrefix_def)
  have no: "fst (playlistMatchesServer 1 (env synced_player) []) = Inr False"
    using playlist_in_sync_is_noop [of 1 "env synced_player" "[[''file'' \<mapsto> ''a.mp3'']]"
        "env synced_player" "[]"] info
    by simp
  from yes have "fst (playlistMatchesServer 1 (env (synced_player\<lparr>clientPool := []\<rparr>))
      (playlist (synced_player\<lparr>clientPool := []\<rparr>))) = Inr True"
    by simp
  with acq playlist_in_sync_is_noop [of 1 "env synced_player" "[]" "env synced_player" "[]"
      synced_player "live 1" "synced_player\<lparr>clientPool := []\<rparr>" "\<lambda>old ids. []"]
  have "(\<exists>pl'. mainLoop_step (\<lambda>old ids. []) ''mpd-playlist'' synced_player = Inr pl'
         \<and> playlist pl' = playlist synced_player \<and> emitted pl' = emitted synced_player)
   \<and> (\<exists>pl'. mainLoop_step (\<lambda>old ids. []) ''mpd-player'' synced_player = Inr pl'
         \<and> playlist pl' = playlist synced_player
         \<and> emitted pl' = emitted synced_player @ [''playstate'', ''progress''])"
    by blast
  with info acq yes no show ?thesis by blast
qed

section \<open>The sync loop: counting plays\<close>

lemma request_frame:
  "request e = (r, e') \<Longrightarrow>
     mpd_stickers e' = mpd_stickers e \<and> (faults e = [] \<longrightarrow> faults e' = [] \<and> r = None)"
  by (auto simp: request_def split: list.splits)






















section \<open>The track cache: a reload that fails\<close>





section \<open>The track cache: concurrent callers of \<open>Tracks\<close>\<close>



lemma ahead_update:
  "i < length cs \<Longrightarrow>
     sum_list (map reloads_ahead (cs[i := c])) + reloads_ahead (cs ! i)
       = sum_list (map reloads_ahead cs) + reloads_ahead c"
  by (induction cs arbitrary: i) (auto simp: nth_Cons' split: nat.splits)

lemma caller_step_length:
  "caller_step player i s = Some s' \<Longrightarrow> length (callers s') = length (callers s)"
  by (auto simp: caller_step_def split: if_splits caller.splits sum.splits)

lemma caller_step_upper:
  assumes "caller_step player i s = Some s'"
  shows "reloads s' + sum_list (map reloads_ahead (callers s'))
       \<le> reloads s + sum_list (map reloads_ahead (callers s))"
proof -
  from assms have i: "i < length (callers s)"
    by (auto simp: caller_step_def split: if_splits)
  show ?thesis
  proof (cases "callers s ! i")
    case Calling
    with assms i obtain c where "s' = s\<lparr>callers := (callers s)[i := c]\<rparr>" "reloads_ahead c \<le> 1"
      by (auto simp: caller_step_def)
    with ahead_update [OF i, of c] Calling show ?thesis by simp
  next
    case Upgrading
    with assms i obtain cache1 where
      "s' = s\<lparr>shared := cache1, callers := (callers s)[i := Reading], reloads := Suc (reloads s)\<rparr>"
      by (auto simp: caller_step_def split: sum.splits)
    with ahead_update [OF i, of Reading] Upgrading show ?thesis by simp
  next
    case Reading
    with assms i have "s' = s\<lparr>callers := (callers s)[i := Returned (read_tracks (shared s))]\<rparr>"
      by (auto simp: caller_step_def)
    with ahead_update [OF i, of "Returned (read_tracks (shared s))"] Reading show ?thesis by simp
  next
    case (Returned r)
    with assms i show ?thesis by (simp add: caller_step_def)
  qed
qed

lemma callers_run_upper:
  "callers_run player sched s = Some s' \<Longrightarrow>
     reloads s' + sum_list (map reloads_ahead (callers s'))
       \<le> reloads s + sum_list (map reloads_ahead (callers s))"
proof (induction sched arbitrary: s)
  case Nil
  then show ?case by simp
next
  case (Cons i sched)
  then obtain s1 where a: "caller_step player i s = Some s1"
    and b: "callers_run player sched s1 = Some s'"
    by (auto split: option.splits)
  from Cons.IH [OF b] caller_step_upper [OF a] show ?case by simp
qed

lemma caller_step_lower:
  assumes "nothing_loaded s" and "caller_step player i s = Some s'"
  shows "nothing_loaded s'"
proof (cases "reloads s = 0")
  case False
  with assms(2) show ?thesis
    by (auto simp: nothing_loaded_def caller_step_def split: if_splits caller.splits sum.splits)
next
  case True
  with assms(1) have none: "cached (shared s) = None" and all: "list_all before_reload (callers s)"
    by (simp_all add: nothing_loaded_def)
  from assms(2) have i: "i < length (callers s)"
    by (auto simp: caller_step_def split: if_splits)
  with all have b: "before_reload (callers s ! i)" by (simp add: list_all_length)
  show ?thesis
  proof (cases "callers s ! i")
    case Calling
    with assms(2) i none have "s' = s\<lparr>callers := (callers s)[i := Upgrading]\<rparr>"
      by (simp add: caller_step_def)
    with none all show ?thesis
      by (simp add: nothing_loaded_def list_all_update_weaken)
  next
    case Upgrading
    with assms(2) i have "reloads s' \<noteq> 0"
      by (auto simp: caller_step_def split: sum.splits)
    then show ?thesis by (simp add: nothing_loaded_def)
  next
    case Reading
    with b show ?thesis by simp
  next
    case (Returned r)
    with b show ?thesis by simp
  qed
qed

lemma callers_run_lower:
  "nothing_loaded s \<Longrightarrow> callers_run player sched s = Some s' \<Longrightarrow> nothing_loaded s'"
  by (induction sched arbitrary: s) (auto split: option.splits dest: caller_step_lower)

lemma callers_run_length:
  "callers_run player sched s = Some s' \<Longrightarrow> length (callers s') = length (callers s)"
  by (induction sched arbitrary: s) (auto split: option.splits dest: caller_step_length)

lemma caller_step_settled:
  assumes "settled s" and "caller_step player i s = Some s'"
  shows "settled s' \<and> reloads s' = reloads s"
proof -
  from assms(2) have i: "i < length (callers s)"
    by (auto simp: caller_step_def split: if_splits)
  with assms(1) have "callers s ! i \<noteq> Upgrading"
    by (simp add: settled_def list_all_length)
  with assms i show ?thesis
    by (cases "callers s ! i") (auto simp: caller_step_def settled_def list_all_update_weaken)
qed

lemma callers_run_settled:
  "settled s \<Longrightarrow> callers_run player sched s = Some s' \<Longrightarrow> reloads s' = reloads s"
proof (induction sched arbitrary: s)
  case Nil
  then show ?case by simp
next
  case (Cons i sched)
  then obtain s1 where a: "caller_step player i s = Some s1"
    and b: "callers_run player sched s1 = Some s'"
    by (auto split: option.splits)
  from caller_step_settled [OF Cons.prems(1) a] Cons.IH [OF _ b] show ?case by simp
qed

lemma callers_run_append:
  "callers_run player (xs @ ys) s
     = (case callers_run player xs s of None \<Rightarrow> None | Some s1 \<Rightarrow> callers_run player ys s1)"
  by (induction xs arbitrary: s) (auto split: option.splits)

lemma first_caller_alone:
  assumes "cached cache = None" and "i < n" and "reloadTracks player cache = Inr cache1"
  shows "callers_run player [i, i] (callers_init n cache)
     = Some \<lparr>shared = cache1, callers = (replicate n Calling)[i := Reading], reloads = 1\<rparr>"
  using assms by (simp add: caller_step_def callers_init_def)

text \<open>
  C6, as stated, with two callers: both make the test under the read lock before
  either reloads, both find the list nil, and each reloads in its turn.
\<close>

theorem concurrent_Tracks_two_reloads_counterexample:
  "callers_run scripted [0, Suc 0, 0, Suc 0, 0, Suc 0]
       (callers_init 2 (empty_cache [Inr [zero_Track], Inr [zero_Track]]))
     = Some \<lparr>shared = (empty_cache [])\<lparr>cached := Some [zero_Track],
                                       index := Some (build_index [zero_Track])\<rparr>,
             callers = [Returned (Inr (Some [zero_Track])), Returned (Inr (Some [zero_Track]))],
             reloads = 2\<rparr>
   \<and> reloads \<lparr>shared = (empty_cache [])\<lparr>cached := Some [zero_Track],
                                       index := Some (build_index [zero_Track])\<rparr>,
             callers = [Returned (Inr (Some [zero_Track])), Returned (Inr (Some [zero_Track]))],
             reloads = 2\<rparr> \<noteq> 1"
  by (simp add: caller_step_def callers_init_def reloadTracks_def read_tracks_def scripted_def
        empty_cache_def numeral_2_eq_2)

text \<open>
  C6, amended: when \<open>n\<close> callers (at least one) invoke \<open>Tracks()\<close> while no data
  is cached, then under every schedule, once all of them have returned, at least one and
  at most \<open>n\<close> reloads were performed: one by every caller that found the list nil
  at its test. Exactly one reload is performed when the first caller completes its
  reload, with a list as the answer, before any other caller makes its test.
\<close>

theorem concurrent_Tracks_reloads:
  assumes "cached cache = None" and "0 < n"
    and "callers_run player sched (callers_init n cache) = Some s"
  shows "(list_all has_returned (callers s) \<longrightarrow> 1 \<le> reloads s \<and> reloads s \<le> n)
       \<and> (\<forall>i rest cache1. sched = i # i # rest \<and> reloadTracks player cache = Inr cache1
             \<and> cached cache1 \<noteq> None \<longrightarrow> reloads s = 1)"
proof (intro conjI impI allI)
  assume fin: "list_all has_returned (callers s)"
  have "nothing_loaded (callers_init n cache)"
    using assms(1) by (simp add: nothing_loaded_def callers_init_def list_all_length)
  from callers_run_lower [OF this assms(3)] have nl: "nothing_loaded s" .
  from callers_run_length [OF assms(3)] assms(2) obtain c cs where cs: "callers s = c # cs"
    by (cases "callers s") (auto simp: callers_init_def)
  with fin have "has_returned c" by simp
  then have "\<not> before_reload c" by (cases c) simp_all
  with nl cs show "1 \<le> reloads s" by (auto simp: nothing_loaded_def)
  from callers_run_upper [OF assms(3)] show "reloads s \<le> n"
    by (simp add: callers_init_def sum_list_replicate)
next
  fix i rest cache1
  assume h: "sched = i # i # rest \<and> reloadTracks player cache = Inr cache1 \<and> cached cache1 \<noteq> None"
  with assms(3) have i: "i < n"
    by (auto simp: caller_step_def callers_init_def split: if_splits)
  let ?s2 = "\<lparr>shared = cache1, callers = (replicate n Calling)[i := Reading], reloads = 1\<rparr>"
  from h have first: "callers_run player [i, i] (callers_init n cache) = Some ?s2"
    using first_caller_alone [OF assms(1) i, of player cache1] by simp
  from h assms(3) have "callers_run player ([i, i] @ rest) (callers_init n cache) = Some s"
    by simp
  then have run: "callers_run player rest ?s2 = Some s"
    unfolding callers_run_append first by simp
  have "list_all (\<lambda>c. c \<noteq> Upgrading) (replicate n Calling)"
    by (simp add: list_all_length)
  then have "list_all (\<lambda>c. c \<noteq> Upgrading) ((replicate n Calling)[i := Reading])"
    by (rule list_all_update_weaken) simp
  with h have "settled ?s2"
    by (simp add: settled_def)
  from callers_run_settled [OF this run] show "reloads s = 1" by simp
qed

theorem concurrent_Tracks_reloads_witness:
  "cached (empty_cache [Inr [zero_Track]] :: (go_error + Track list) list TrackCache) = None
   \<and> 0 < (2::nat)
   \<and> callers_run scripted [0, 0, 0, Suc 0] (callers_init 2 (empty_cache [Inr [zero_Track]]))
     = Some \<lparr>shared = (empty_cache [])\<lparr>cached := Some [zero_Track],
                                       index := Some (build_index [zero_Track])\<rparr>,
             callers = [Returned (Inr (Some [zero_Track])), Returned (Inr (Some [zero_Track]))],
             reloads = 1\<rparr>
   \<and> reloadTracks scripted (empty_cache [Inr [zero_Track]])
     = Inr ((empty_cache [])\<lparr>cached := Some [zero_Track], index := Some (build_index [zero_Track])\<rparr>)"
proof -
  let ?cache = "empty_cache [Inr [zero_Track]] :: (go_error + Track list) list TrackCache"
  let ?loaded = "(empty_cache [])\<lparr>cached := Some [zero_Track],
      index := Some (build_index [zero_Track])\<rparr> :: (go_error + Track list) list TrackCache"
  let ?end = "\<lparr>shared = ?loaded,
      callers = [Returned (Inr (Some [zero_Track])), Returned (Inr (Some [zero_Track]))],
      reloads = 1\<rparr>"
  have nil: "cached ?cache = None" by (simp add: empty_cache_def)
  have two: "0 < (2::nat)" by simp
  have reload: "reloadTracks scripted ?cache = Inr ?loaded"
    by (simp add: reloadTracks_def scripted_def empty_cache_def)
  have run: "callers_run scripted [0, 0, 0, Suc 0] (callers_init 2 ?cache) = Some ?end"
    by (simp add: caller_step_def callers_init_def reloadTracks_def read_tracks_def scripted_def
          empty_cache_def numeral_2_eq_2)
  from concurrent_Tracks_reloads [OF nil two run] have "1 \<le> reloads ?end \<and> reloads ?end \<le> 2"
    by simp
  with nil two reload run show ?thesis by simp
qed

section \<open>The track cache: a URI that names a directory\<close>

text \<open>
  C9 at a concrete input. The URI \<open>mpd://albums\<close> is not in the index of the cache
  and names a directory of the daemon's library. The player's \<open>TrackInfo\<close> takes the
  first entry that the daemon lists for it, which is the directory entry, skips it when
  it builds the tracks, and returns no error and an empty slice. The cache then takes
  element 0 of that slice, which is a panic. (For a URI that the daemon lists nothing
  for, the player returns one track with empty fields.)
\<close>

theorem TrackInfo_directory_out_of_range:
  "Player_TrackInfo (\<lambda>track. track) [''mpd://albums''] (player_with [live 1] library_with_directory)
     = Inr (Inr [], player_with [live 1] library_with_directory)
   \<and> TrackCache_TrackInfo (mpd_methods (\<lambda>track. track)) [''mpd://albums'']
       ((empty_cache (player_with [live 1] library_with_directory))
          \<lparr>cached := Some [], index := Some Map.empty\<rparr>)
     = Inl (Panics ''index out of range [0] with length 0'')
   \<and> Player_TrackInfo (\<lambda>track. track) [''mpd://nothing''] (player_with [live 1] library_with_directory)
     = Inr (Inr [zero_Track], player_with [live 1] library_with_directory)"
proof -
  note eval = Player_TrackInfo_def withMpd_capture_def acquire_def run_step_def
    tracks_of_songs_def tracks_result_def mpd_ListAllInfo_def request_def player_with_def
    library_with_directory_def quiet_def live_def uriToMpd_def strings_TrimPrefix_def
    strings_HasPrefix_def URI_SCHEMA_def Second_def
  have empty: "Player_TrackInfo (\<lambda>track. track) [''mpd://albums'']
        (player_with [live 1] library_with_directory)
      = Inr (Inr [], player_with [live 1] library_with_directory)"
    by (simp add: eval)
  have one: "Player_TrackInfo (\<lambda>track. track) [''mpd://nothing'']
        (player_with [live 1] library_with_directory)
      = Inr (Inr [zero_Track], player_with [live 1] library_with_directory)"
    by (simp add: eval)
  have "TrackCache_TrackInfo (mpd_methods (\<lambda>track. track)) [''mpd://albums'']
       ((empty_cache (player_with [live 1] library_with_directory))
          \<lparr>cached := Some [], index := Some Map.empty\<rparr>)
     = Inl (Panics ''index out of range [0] with length 0'')"
    by (simp add: TrackCache_TrackInfo_def empty_cache_def mpd_methods_def empty del: One_nat_def)
  with empty one show ?thesis by simp
qed

end
